theory Spec2Isabelle
  imports Complex_Main
begin

section \<open>The sync pipeline of routes/index.js\<close>

text \<open>
  The development embeds the two handlers of \<^verbatim>\<open>src/routes/index.js\<close> that touch the
  watermark log: \<^verbatim>\<open>GET /api/sync-status\<close> (lines 31-42) and \<^verbatim>\<open>POST /api/sync\<close>
  (lines 49-158). The handlers are sequences of awaited effects inside one
  \<^verbatim>\<open>try\<close> block; they are modelled as programs over an explicit connection state in
  which a rejected promise is an \<open>Inl\<close> result, and everything the handler does to the
  outside (HTTP calls, SQL statements, commit, rollback) is recorded in a trace.
\<close>

subsection \<open>Values\<close>

text \<open>
  A JavaScript \<^verbatim>\<open>Date\<close> (and a MySQL timestamp) is an instant: milliseconds since the
  epoch. JSON numbers are only stored and printed by the handler, never computed with;
  they are carried as rationals and printed by a parameter of the environment.
\<close>

type_synonym instant = int
type_synonym number = rat

subsection \<open>Objects of the POS API\<close>

text \<open>A customer object of the \<^verbatim>\<open>customers\<close> array (read at line 85).\<close>

record customer =
  cust_id :: string
  cust_name :: "string option"
  cust_email :: "string option"
  cust_phone_number :: "string option"
  cust_total_visits :: number
  cust_total_spent :: number
  cust_updated_at :: instant

text \<open>A line item of a receipt (read at lines 129 and 131).\<close>

record line_item =
  item_name :: string
  quantity :: number
  price :: number

text \<open>
  A receipt object of the \<^verbatim>\<open>receipts\<close> array (read at lines 108-126). \<open>customer_id\<close>
  is \<open>None\<close> when the field is \<^verbatim>\<open>null\<close> or absent.
\<close>

record receipt =
  receipt_number :: string
  created_at :: instant
  total_money :: number
  total_tax :: number
  source :: string
  customer_id :: "string option"
  line_items :: "line_item list"

text \<open>The query parameters \<^verbatim>\<open>syncParams\<close> of lines 60-64.\<close>

record sync_params =
  created_at_min :: instant
  created_at_max :: instant
  limit :: nat

subsection \<open>The relational store\<close>

text \<open>
  Rows of the four relations. A column that an \<^verbatim>\<open>INSERT\<close> does not name is \<open>None\<close>
  (left to the column's default).
\<close>

record customer_row =
  row_id :: string
  row_name :: "string option"
  row_email :: "string option"
  row_phone_number :: "string option"
  row_total_visits :: "number option"
  row_total_spent :: "number option"
  row_updated_at :: "instant option"

record receipt_row =
  rr_receipt_number :: string
  rr_created_at :: instant
  rr_total_money :: number
  rr_total_tax :: number
  rr_source :: string
  rr_customer_id :: "string option"

record line_item_row =
  li_receipt_number :: string
  li_item_name :: string
  li_quantity :: number
  li_price :: number

text \<open>
  Tables are lists of rows in insertion order. \<open>sync_log\<close> holds the
  \<^verbatim>\<open>last_sync_timestamp\<close> column in the order of its auto-increment \<^verbatim>\<open>id\<close>, so the row
  that \<^verbatim>\<open>ORDER BY id DESC LIMIT 1\<close> selects is the last element.
\<close>

record db =
  customers :: "customer_row list"
  receipts :: "receipt_row list"
  line_items_tbl :: "line_item_row list"
  sync_log :: "instant list"

subsection \<open>The SQL statements the handlers issue\<close>

datatype stmt =
    SelectLastSync
  | InsertCustomerOnDuplicateKeyUpdate customer_row
  | InsertIgnoreCustomer string string instant
  | InsertReceipt receipt_row
  | InsertLineItem line_item_row
  | InsertSyncLog instant

datatype sql_error = DuplicateEntry | ForeignKeyViolation | StatementRejected

text \<open>
  Line 33 and line 56: \<^verbatim>\<open>SELECT last_sync_timestamp FROM sync_log ORDER BY id DESC LIMIT 1\<close>.
\<close>

definition select_last_sync :: "db \<Rightarrow> instant list" where
  "select_last_sync d = (case rev (sync_log d) of [] \<Rightarrow> [] | t # _ \<Rightarrow> [t])"

text \<open>
  Lines 76-84: \<^verbatim>\<open>INSERT INTO customers (...) VALUES (...) ON DUPLICATE KEY UPDATE\<close>
  with the six assignments \<^verbatim>\<open>name = VALUES(name)\<close>, ..., \<^verbatim>\<open>updated_at = VALUES(updated_at)\<close>.
\<close>

definition on_duplicate_key_update :: "customer_row \<Rightarrow> customer_row \<Rightarrow> customer_row" where
  "on_duplicate_key_update v r =
     r\<lparr>row_name := row_name v,
       row_email := row_email v,
       row_phone_number := row_phone_number v,
       row_total_visits := row_total_visits v,
       row_total_spent := row_total_spent v,
       row_updated_at := row_updated_at v\<rparr>"

definition insert_customer_on_duplicate_key_update :: "customer_row \<Rightarrow> db \<Rightarrow> db" where
  "insert_customer_on_duplicate_key_update v d =
     (if row_id v \<in> set (map row_id (customers d))
      then d\<lparr>customers :=
              map (\<lambda>r. if row_id r = row_id v then on_duplicate_key_update v r else r)
                (customers d)\<rparr>
      else d\<lparr>customers := customers d @ [v]\<rparr>)"

text \<open>
  Line 111: \<^verbatim>\<open>INSERT IGNORE INTO customers (id, name, updated_at) VALUES (?, ?, ?)\<close>.
\<close>

definition insert_ignore_customer :: "string \<Rightarrow> string \<Rightarrow> instant \<Rightarrow> db \<Rightarrow> db" where
  "insert_ignore_customer i n t d =
     (if i \<in> set (map row_id (customers d)) then d
      else d\<lparr>customers := customers d @
              [\<lparr>row_id = i, row_name = Some n, row_email = None, row_phone_number = None,
                row_total_visits = None, row_total_spent = None, row_updated_at = Some t\<rparr>]\<rparr>)"

text \<open>
  Modelled from the spec: the table declarations (the \<^verbatim>\<open>schema.sql\<close> that the readme
  names) are not among the sources. The spec's data model gives the constraints:
  \<^verbatim>\<open>customers.id\<close> and \<^verbatim>\<open>receipts.receipt_number\<close> are unique keys,
  \<^verbatim>\<open>receipts.customer_id\<close> is a nullable foreign key to \<^verbatim>\<open>customers\<close>, and
  \<^verbatim>\<open>line_items.receipt_number\<close> is a foreign key to \<^verbatim>\<open>receipts\<close>. Lines 118 and 128
  are plain \<^verbatim>\<open>INSERT\<close>s, so a violated constraint rejects the statement.
\<close>

definition insert_receipt :: "receipt_row \<Rightarrow> db \<Rightarrow> sql_error + db" where
  "insert_receipt v d =
     (if rr_receipt_number v \<in> set (map rr_receipt_number (receipts d))
      then Inl DuplicateEntry
      else case rr_customer_id v of
             None \<Rightarrow> Inr (d\<lparr>receipts := receipts d @ [v]\<rparr>)
           | Some c \<Rightarrow>
               if c \<in> set (map row_id (customers d))
               then Inr (d\<lparr>receipts := receipts d @ [v]\<rparr>)
               else Inl ForeignKeyViolation)"

definition insert_line_item :: "line_item_row \<Rightarrow> db \<Rightarrow> sql_error + db" where
  "insert_line_item v d =
     (if li_receipt_number v \<in> set (map rr_receipt_number (receipts d))
      then Inr (d\<lparr>line_items_tbl := line_items_tbl d @ [v]\<rparr>)
      else Inl ForeignKeyViolation)"

text \<open>Line 146: \<^verbatim>\<open>INSERT INTO sync_log (last_sync_timestamp) VALUES (?)\<close>.\<close>

definition insert_sync_log :: "instant \<Rightarrow> db \<Rightarrow> db" where
  "insert_sync_log t d = d\<lparr>sync_log := sync_log d @ [t]\<rparr>"

text \<open>A statement yields the selected rows and the table state after it, or an error.\<close>

fun exec_stmt :: "stmt \<Rightarrow> db \<Rightarrow> sql_error + (instant list \<times> db)" where
  "exec_stmt SelectLastSync d = Inr (select_last_sync d, d)"
| "exec_stmt (InsertCustomerOnDuplicateKeyUpdate v) d =
     Inr ([], insert_customer_on_duplicate_key_update v d)"
| "exec_stmt (InsertIgnoreCustomer i n t) d = Inr ([], insert_ignore_customer i n t d)"
| "exec_stmt (InsertReceipt v) d =
     (case insert_receipt v d of Inl e \<Rightarrow> Inl e | Inr d' \<Rightarrow> Inr ([], d'))"
| "exec_stmt (InsertLineItem v) d =
     (case insert_line_item v d of Inl e \<Rightarrow> Inl e | Inr d' \<Rightarrow> Inr ([], d'))"
| "exec_stmt (InsertSyncLog t) d = Inr ([], insert_sync_log t d)"

subsection \<open>The environment of one invocation\<close>

text \<open>
  Everything the handler reads from outside the store: the clock (\<^verbatim>\<open>new Date()\<close>,
  line 58), the two POS endpoints (an \<open>Inl\<close> is a rejected \<^verbatim>\<open>axios.get\<close>; the body's
  \<^verbatim>\<open>customers\<close> or \<^verbatim>\<open>receipts\<close> field is \<open>None\<close> when the body lacks it), the
  embedding service (\<open>False\<close> is a rejected \<^verbatim>\<open>axios.post\<close>), the statements,
  commits and rollbacks that the database server rejects for a reason of its own
  (\<open>db_fault n\<close>: the \<open>n\<close>-th one sent on the connection, counted from 0), and the
  host's formatting of dates and numbers.
\<close>

record env =
  clock :: instant
  get_customers :: "sync_params \<Rightarrow> unit + customer list option"
  get_receipts :: "sync_params \<Rightarrow> unit + receipt list option"
  embed_and_store :: "string list \<Rightarrow> bool"
  db_fault :: "nat \<Rightarrow> bool"
  toLocaleString :: "instant \<Rightarrow> string"
  number_toString :: "number \<Rightarrow> string"

subsection \<open>Programs: connection state, exceptions, trace\<close>

datatype exn = TypeError | AxiosError | SqlError sql_error

datatype event =
    EvGetCustomers sync_params
  | EvGetReceipts sync_params
  | EvEmbed "string list"
  | EvQuery stmt
  | EvCommit
  | EvRollback

text \<open>
  \<open>durable\<close> is what the store holds for every other session; \<open>tx\<close> is what the
  handler's transaction sees; \<open>issued\<close> counts the statements sent on the connection;
  \<open>trace\<close> lists the effects so far.
\<close>

record conn =
  durable :: db
  tx :: db
  issued :: nat
  trace :: "event list"

type_synonym 'a prog = "conn \<Rightarrow> (exn + 'a) \<times> conn"

definition return_p :: "'a \<Rightarrow> 'a prog" where
  "return_p x = (\<lambda>s. (Inr x, s))"

definition throw_p :: "exn \<Rightarrow> 'a prog" where
  "throw_p e = (\<lambda>s. (Inl e, s))"

definition bind_p :: "'a prog \<Rightarrow> ('a \<Rightarrow> 'b prog) \<Rightarrow> 'b prog" where
  "bind_p m f = (\<lambda>s. case m s of (Inl e, s') \<Rightarrow> (Inl e, s') | (Inr x, s') \<Rightarrow> f x s')"

text \<open>\<^verbatim>\<open>await connection.query(sql, values)\<close>.\<close>

definition query :: "env \<Rightarrow> stmt \<Rightarrow> (instant list) prog" where
  "query e q = (\<lambda>s.
     let s1 = s\<lparr>issued := Suc (issued s), trace := trace s @ [EvQuery q]\<rparr>
     in if db_fault e (issued s) then (Inl (SqlError StatementRejected), s1)
        else case exec_stmt q (tx s) of
               Inl err \<Rightarrow> (Inl (SqlError err), s1)
             | Inr (rows, d) \<Rightarrow> (Inr rows, s1\<lparr>tx := d\<rparr>))"

text \<open>
  \<^verbatim>\<open>await connection.commit()\<close> and \<^verbatim>\<open>await connection.rollback()\<close>. Both are sent to
  the server like a statement, and the server can reject either.
\<close>

definition commit :: "env \<Rightarrow> unit prog" where
  "commit e = (\<lambda>s.
     let s1 = s\<lparr>issued := Suc (issued s), trace := trace s @ [EvCommit]\<rparr>
     in if db_fault e (issued s) then (Inl (SqlError StatementRejected), s1)
        else (Inr (), s1\<lparr>durable := tx s\<rparr>))"

definition rollback :: "env \<Rightarrow> unit prog" where
  "rollback e = (\<lambda>s.
     let s1 = s\<lparr>issued := Suc (issued s), trace := trace s @ [EvRollback]\<rparr>
     in if db_fault e (issued s) then (Inl (SqlError StatementRejected), s1)
        else (Inr (), s1\<lparr>tx := durable s\<rparr>))"

text \<open>\<^verbatim>\<open>connection.beginTransaction()\<close> on a fresh connection of the pool.\<close>

definition beginTransaction :: "db \<Rightarrow> conn" where
  "beginTransaction d = \<lparr>durable = d, tx = d, issued = 0, trace = []\<rparr>"

text \<open>\<^verbatim>\<open>await axios.get(...)\<close> and \<^verbatim>\<open>await axios.post(...)\<close>.\<close>

definition axios_get_customers :: "env \<Rightarrow> sync_params \<Rightarrow> (customer list option) prog" where
  "axios_get_customers e p = (\<lambda>s.
     let s1 = s\<lparr>trace := trace s @ [EvGetCustomers p]\<rparr>
     in case get_customers e p of Inl _ \<Rightarrow> (Inl AxiosError, s1) | Inr b \<Rightarrow> (Inr b, s1))"

definition axios_get_receipts :: "env \<Rightarrow> sync_params \<Rightarrow> (receipt list option) prog" where
  "axios_get_receipts e p = (\<lambda>s.
     let s1 = s\<lparr>trace := trace s @ [EvGetReceipts p]\<rparr>
     in case get_receipts e p of Inl _ \<Rightarrow> (Inl AxiosError, s1) | Inr b \<Rightarrow> (Inr b, s1))"

definition axios_post_embed :: "env \<Rightarrow> string list \<Rightarrow> unit prog" where
  "axios_post_embed e docs = (\<lambda>s.
     let s1 = s\<lparr>trace := trace s @ [EvEmbed docs]\<rparr>
     in if embed_and_store e docs then (Inr (), s1) else (Inl AxiosError, s1))"

subsection \<open>GET /api/sync-status (lines 31-42)\<close>

datatype status_response =
    LastSync string  \<comment> \<open>200, \<^verbatim>\<open>{ lastSync: ... }\<close>\<close>
  | NoSyncYet  \<comment> \<open>404, \<^verbatim>\<open>'No sync has been performed yet.'\<close>\<close>
  | StatusFailed  \<comment> \<open>500, \<^verbatim>\<open>'Failed to retrieve sync status.'\<close>\<close>

text \<open>\<^verbatim>\<open>String.prototype.replace(',', ' of')\<close>: the first comma only.\<close>

fun replace_comma :: "string \<Rightarrow> string" where
  "replace_comma [] = []"
| "replace_comma (c # cs) = (if c = CHR '','' then '' of'' @ cs else c # replace_comma cs)"

text \<open>
  The query runs on the pool, outside any transaction; \<open>rejected\<close> is a rejected
  \<^verbatim>\<open>dbPool.query\<close>, \<open>toLocaleDateString\<close> the host's date formatting with the
  options of line 37.
\<close>

definition get_api_sync_status :: "(instant \<Rightarrow> string) \<Rightarrow> bool \<Rightarrow> db \<Rightarrow> status_response" where
  "get_api_sync_status toLocaleDateString rejected d =
     (if rejected then StatusFailed
      else case exec_stmt SelectLastSync d of
             Inl _ \<Rightarrow> StatusFailed
           | Inr (rows, _) \<Rightarrow>
               (case rows of
                  [] \<Rightarrow> NoSyncYet
                | t # _ \<Rightarrow> LastSync (replace_comma (toLocaleDateString t))))"

subsection \<open>POST /api/sync (lines 49-158)\<close>

datatype response =
    NoNewData  \<comment> \<open>200, \<^verbatim>\<open>'No new data to sync.'\<close>\<close>
  | Synced nat nat  \<comment> \<open>200, \<^verbatim>\<open>Successfully synced n receipts and m customers.\<close>\<close>
  | SyncFailed  \<comment> \<open>500, \<^verbatim>\<open>'An error occurred during synchronization.'\<close>\<close>
  | NoResponse  \<comment> \<open>the \<^verbatim>\<open>catch\<close> block threw before line 154: nothing is sent\<close>

text \<open>
  Step 1, lines 56-57. \<^verbatim>\<open>rows[0]\<close> of an empty result is \<^verbatim>\<open>undefined\<close>, and reading
  \<^verbatim>\<open>.last_sync_timestamp\<close> of it throws a TypeError.
\<close>

definition read_last_sync :: "env \<Rightarrow> instant prog" where
  "read_last_sync e =
     bind_p (query e SelectLastSync)
       (\<lambda>rows. case rows of [] \<Rightarrow> throw_p TypeError | t # _ \<Rightarrow> return_p t)"

text \<open>The values array of line 85.\<close>

definition customer_values :: "customer \<Rightarrow> customer_row" where
  "customer_values c =
     \<lparr>row_id = cust_id c, row_name = cust_name c, row_email = cust_email c,
      row_phone_number = cust_phone_number c, row_total_visits = Some (cust_total_visits c),
      row_total_spent = Some (cust_total_spent c), row_updated_at = Some (cust_updated_at c)\<rparr>"

text \<open>The loop of lines 74-87.\<close>

fun upsert_customers :: "env \<Rightarrow> customer list \<Rightarrow> unit prog" where
  "upsert_customers e [] = return_p ()"
| "upsert_customers e (c # cs) =
     bind_p (query e (InsertCustomerOnDuplicateKeyUpdate (customer_values c)))
       (\<lambda>_. upsert_customers e cs)"

text \<open>
  Step 2, lines 69-87. \<^verbatim>\<open>data.customers || []\<close>: a body without the field gives the
  empty list.
\<close>

definition sync_customers :: "env \<Rightarrow> sync_params \<Rightarrow> (customer list) prog" where
  "sync_customers e syncParams =
     bind_p (axios_get_customers e syncParams)
       (\<lambda>body. let customers = (case body of None \<Rightarrow> [] | Some cs \<Rightarrow> cs)
               in bind_p (upsert_customers e customers) (\<lambda>_. return_p customers))"

text \<open>
  Step 3, lines 92-98. \<^verbatim>\<open>data.receipts\<close> is used as it is; when the body lacks the
  field, \<^verbatim>\<open>receipts.length\<close> on line 98 throws a TypeError.
\<close>

definition fetch_receipts :: "env \<Rightarrow> sync_params \<Rightarrow> (receipt list) prog" where
  "fetch_receipts e syncParams =
     bind_p (axios_get_receipts e syncParams)
       (\<lambda>body. case body of None \<Rightarrow> throw_p TypeError | Some rs \<Rightarrow> return_p rs)"

text \<open>\<^verbatim>\<open>Array.prototype.join\<close>: the separator goes before every element but the first.\<close>

fun join_from :: "string \<Rightarrow> string \<Rightarrow> string list \<Rightarrow> string" where
  "join_from sep acc [] = acc"
| "join_from sep acc (x # xs) = join_from sep (acc @ sep @ x) xs"

definition join :: "string \<Rightarrow> string list \<Rightarrow> string" where
  "join sep xs = (case xs of [] \<Rightarrow> [] | x # rest \<Rightarrow> join_from sep x rest)"

text \<open>The values arrays of lines 119 and 129.\<close>

definition receipt_values :: "receipt \<Rightarrow> receipt_row" where
  "receipt_values r =
     \<lparr>rr_receipt_number = receipt_number r, rr_created_at = created_at r,
      rr_total_money = total_money r, rr_total_tax = total_tax r, rr_source = source r,
      rr_customer_id = customer_id r\<rparr>"

definition line_item_values :: "receipt \<Rightarrow> line_item \<Rightarrow> line_item_row" where
  "line_item_values r i =
     \<lparr>li_receipt_number = receipt_number r, li_item_name = item_name i,
      li_quantity = quantity i, li_price = price i\<rparr>"

text \<open>
  The inner loop of lines 126-132: one insert per line item, and one clause pushed on
  \<^verbatim>\<open>itemSummaries\<close>.
\<close>

fun save_line_items :: "env \<Rightarrow> receipt \<Rightarrow> line_item list \<Rightarrow> string list \<Rightarrow> (string list) prog" where
  "save_line_items e r [] itemSummaries = return_p itemSummaries"
| "save_line_items e r (i # items) itemSummaries =
     bind_p (query e (InsertLineItem (line_item_values r i)))
       (\<lambda>_. save_line_items e r items
              (itemSummaries @ [number_toString e (quantity i) @ '' of '' @ item_name i]))"

text \<open>
  Lines 108-114: the placeholder is inserted when \<^verbatim>\<open>receipt.customer_id\<close> is truthy,
  that is, neither absent nor the empty string.
\<close>

definition ensure_customer_stub :: "env \<Rightarrow> receipt \<Rightarrow> unit prog" where
  "ensure_customer_stub e r =
     (case customer_id r of
        None \<Rightarrow> return_p ()
      | Some c \<Rightarrow>
          if c \<noteq> []
          then bind_p (query e (InsertIgnoreCustomer c ''Unknown Customer'' (created_at r)))
                 (\<lambda>_. return_p ())
          else return_p ())"

text \<open>The body of the loop of lines 106-135; the result is \<^verbatim>\<open>receiptDescription\<close>.\<close>

definition save_receipt :: "env \<Rightarrow> receipt \<Rightarrow> string prog" where
  "save_receipt e r =
     bind_p (ensure_customer_stub e r) (\<lambda>_.
     bind_p (query e (InsertReceipt (receipt_values r))) (\<lambda>_.
     let receiptDescription =
           ''On '' @ toLocaleString e (created_at r) @ '', receipt '' @ receipt_number r @
           '' was created totaling '' @ number_toString e (total_money r) @
           ''. Items sold: ''
     in bind_p (save_line_items e r (line_items r) []) (\<lambda>itemSummaries.
        return_p (receiptDescription @ join '', '' itemSummaries @ ''.''))))"

text \<open>Step 4, lines 103-135.\<close>

fun save_receipts :: "env \<Rightarrow> receipt list \<Rightarrow> string list \<Rightarrow> (string list) prog" where
  "save_receipts e [] documentsForVectorization = return_p documentsForVectorization"
| "save_receipts e (r # rs) documentsForVectorization =
     bind_p (save_receipt e r)
       (\<lambda>receiptDescription.
          save_receipts e rs (documentsForVectorization @ [receiptDescription]))"

text \<open>Step 5, lines 138-143.\<close>

definition send_documents :: "env \<Rightarrow> string list \<Rightarrow> unit prog" where
  "send_documents e documentsForVectorization =
     (if length documentsForVectorization > 0
      then axios_post_embed e documentsForVectorization
      else return_p ())"

text \<open>The \<^verbatim>\<open>try\<close> block, lines 56-149, after the transaction has begun.\<close>

definition sync_try :: "env \<Rightarrow> response prog" where
  "sync_try e =
     bind_p (read_last_sync e) (\<lambda>lastSync.
     let now = clock e;
         syncParams = \<lparr>created_at_min = lastSync, created_at_max = now, limit = 250\<rparr>
     in bind_p (sync_customers e syncParams) (\<lambda>customers.
        bind_p (fetch_receipts e syncParams) (\<lambda>receipts.
        if length receipts = 0 \<and> length customers = 0
        then bind_p (commit e) (\<lambda>_. return_p NoNewData)
        else bind_p (save_receipts e receipts []) (\<lambda>documentsForVectorization.
             bind_p (send_documents e documentsForVectorization) (\<lambda>_.
             bind_p (query e (InsertSyncLog now)) (\<lambda>_.
             bind_p (commit e) (\<lambda>_.
             return_p (Synced (length receipts) (length customers)))))))))"

text \<open>
  What one invocation leaves behind: the response sent, the store as every other
  session sees it, the tables as the handler's own connection sees them when it is
  released on line 156 (the same as the store once the transaction is committed or
  rolled back), and the effects in the order they happened.
\<close>

record outcome =
  response :: response
  store :: db
  session :: db
  effects :: "event list"

text \<open>
  The handler, from the point where the pool has given a connection and the
  transaction has begun (lines 52-53): run the \<^verbatim>\<open>try\<close> block; on any exception
  await the rollback (line 152) and then answer 500 (line 154). When the rollback is
  itself rejected, the \<^verbatim>\<open>catch\<close> block throws on line 152, line 154 is not reached and
  no response is sent; the \<^verbatim>\<open>finally\<close> block releases the connection all the same.
\<close>

definition post_api_sync :: "env \<Rightarrow> db \<Rightarrow> outcome" where
  "post_api_sync e d =
     (case sync_try e (beginTransaction d) of
        (Inr r, s) \<Rightarrow>
          \<lparr>response = r, store = durable s, session = tx s, effects = trace s\<rparr>
      | (Inl _, s) \<Rightarrow>
          (case rollback e s of
             (Inr _, s') \<Rightarrow>
               \<lparr>response = SyncFailed, store = durable s', session = tx s',
                effects = trace s'\<rparr>
           | (Inl _, s') \<Rightarrow>
               \<lparr>response = NoResponse, store = durable s', session = tx s',
                effects = trace s'\<rparr>))"

text \<open>
  \<open>rollback_rejected e d\<close>: the \<^verbatim>\<open>try\<close> block throws and the server rejects the
  rollback that the \<^verbatim>\<open>catch\<close> block sends.
\<close>

definition rollback_rejected :: "env \<Rightarrow> db \<Rightarrow> bool" where
  "rollback_rejected e d =
     (case sync_try e (beginTransaction d) of
        (Inr _, s) \<Rightarrow> False
      | (Inl _, s) \<Rightarrow> db_fault e (issued s))"

subsection \<open>Successive invocations\<close>





subsection \<open>Kinds of effects\<close>

fun is_embed :: "event \<Rightarrow> bool" where
  "is_embed (EvEmbed docs) = True"
| "is_embed (EvGetCustomers p) = False"
| "is_embed (EvGetReceipts p) = False"
| "is_embed (EvQuery q) = False"
| "is_embed EvCommit = False"
| "is_embed EvRollback = False"

fun is_watermark_append :: "event \<Rightarrow> bool" where
  "is_watermark_append (EvQuery (InsertSyncLog t)) = True"
| "is_watermark_append (EvQuery SelectLastSync) = False"
| "is_watermark_append (EvQuery (InsertCustomerOnDuplicateKeyUpdate v)) = False"
| "is_watermark_append (EvQuery (InsertIgnoreCustomer i n t)) = False"
| "is_watermark_append (EvQuery (InsertReceipt v)) = False"
| "is_watermark_append (EvQuery (InsertLineItem v)) = False"
| "is_watermark_append (EvEmbed docs) = False"
| "is_watermark_append (EvGetCustomers p) = False"
| "is_watermark_append (EvGetReceipts p) = False"
| "is_watermark_append EvCommit = False"
| "is_watermark_append EvRollback = False"



text \<open>\<open>extends_by P t0 s\<close>: the trace of \<open>s\<close> is \<open>t0\<close> followed by events that satisfy \<open>P\<close>.\<close>

definition extends_by :: "(event \<Rightarrow> bool) \<Rightarrow> event list \<Rightarrow> conn \<Rightarrow> bool" where
  "extends_by P t0 s \<longleftrightarrow> (\<exists>evs. trace s = t0 @ evs \<and> list_all P evs)"

text \<open>
  \<open>quietly s s'\<close>: from \<open>s\<close> to \<open>s'\<close> the trace grew by events that are neither calls
  of the embedding service nor inserts into the watermark log.
\<close>

definition quietly :: "conn \<Rightarrow> conn \<Rightarrow> bool" where
  "quietly s s' \<longleftrightarrow>
     extends_by (\<lambda>ev. \<not> is_embed ev \<and> \<not> is_watermark_append ev) (trace s) s'"

subsection \<open>The document builder as the specification words it\<close>

text \<open>
  \<open>buildSummary\<close> follows the specification: the text
  \<^verbatim>\<open>On <created_at>, receipt <receipt_number> was created totaling <total_money>. Items sold: \<close>
  followed by the clauses \<^verbatim>\<open><quantity> of <item_name>\<close>, one per line item in list
  order, joined by a comma and a blank, and a final period.
\<close>

fun comma_joined :: "string list \<Rightarrow> string" where
  "comma_joined [] = []"
| "comma_joined [x] = x"
| "comma_joined (x # y # ys) = x @ '', '' @ comma_joined (y # ys)"

definition item_clause :: "env \<Rightarrow> line_item \<Rightarrow> string" where
  "item_clause e i = number_toString e (quantity i) @ '' of '' @ item_name i"

definition buildSummary :: "env \<Rightarrow> receipt \<Rightarrow> line_item list \<Rightarrow> string" where
  "buildSummary e r lineItems =
     ''On '' @ toLocaleString e (created_at r) @ '', receipt '' @ receipt_number r @
     '' was created totaling '' @ number_toString e (total_money r) @ ''. Items sold: '' @
     comma_joined (map (item_clause e) lineItems) @ ''.''"

subsection \<open>Invariants of programs\<close>

text \<open>\<open>preserves I m\<close>: whatever \<open>m\<close> returns or throws, it keeps \<open>I\<close>.\<close>

definition preserves :: "(conn \<Rightarrow> bool) \<Rightarrow> 'a prog \<Rightarrow> bool" where
  "preserves I m \<longleftrightarrow> (\<forall>s. I s \<longrightarrow> I (snd (m s)))"

text \<open>
  \<open>appended_only c0 d\<close>: the customers table of \<open>d\<close> is \<open>c0\<close> followed by rows for ids
  that \<open>c0\<close> does not have.
\<close>

definition appended_only :: "customer_row list \<Rightarrow> db \<Rightarrow> bool" where
  "appended_only c0 d \<longleftrightarrow>
     (\<exists>new. customers d = c0 @ new \<and> (\<forall>row \<in> set new. row_id row \<notin> set (map row_id c0)))"

subsection \<open>A concrete store and concrete invocations\<close>

text \<open>
  The scenario of the specification: the watermark is set, the POS returns the
  customer \<^verbatim>\<open>C7\<close> and the receipt \<^verbatim>\<open>R-100\<close> with two line items, bought by a customer
  \<^verbatim>\<open>C1\<close> that the customers response does not contain.
\<close>

definition alice :: customer where
  "alice = \<lparr>cust_id = ''C7'', cust_name = Some ''Alice'', cust_email = None,
            cust_phone_number = None, cust_total_visits = 3, cust_total_spent = 40,
            cust_updated_at = 900\<rparr>"

definition alice_earlier :: customer where
  "alice_earlier = \<lparr>cust_id = ''C7'', cust_name = Some ''Alice B'', cust_email = Some ''a@b.c'',
            cust_phone_number = None, cust_total_visits = 2, cust_total_spent = 25,
            cust_updated_at = 500\<rparr>"

definition latte :: line_item where
  "latte = \<lparr>item_name = ''Latte'', quantity = 2, price = 4\<rparr>"

definition muffin :: line_item where
  "muffin = \<lparr>item_name = ''Muffin'', quantity = 1, price = 3\<rparr>"

definition r100 :: receipt where
  "r100 = \<lparr>receipt_number = ''R-100'', created_at = 1500, total_money = 11, total_tax = 1,
           source = ''pos'', customer_id = Some ''C1'', line_items = [latte, muffin]\<rparr>"

definition seeded_db :: db where
  "seeded_db = \<lparr>customers = [], receipts = [], line_items_tbl = [], sync_log = [1000]\<rparr>"

definition show_number :: "number \<Rightarrow> string" where
  "show_number n = (if n = 1 then ''1'' else if n = 2 then ''2'' else ''11'')"

definition quiet_env :: env where
  "quiet_env = \<lparr>clock = 2000,
                get_customers = (\<lambda>p. Inr (Some [])),
                get_receipts = (\<lambda>p. Inr (Some [])),
                embed_and_store = (\<lambda>docs. True),
                db_fault = (\<lambda>n. False),
                toLocaleString = (\<lambda>t. ''8/1/2025, 12:00:01 AM''),
                number_toString = show_number\<rparr>"

definition busy_env :: env where
  "busy_env = quiet_env\<lparr>get_customers := (\<lambda>p. Inr (Some [alice])),
                         get_receipts := (\<lambda>p. Inr (Some [r100]))\<rparr>"

text \<open>The same invocation, except that the server rejects the sixth statement: the
  insert of the second line item.\<close>

definition faulty_env :: env where
  "faulty_env = busy_env\<lparr>db_fault := (\<lambda>n. n = 5)\<rparr>"

text \<open>The store after the invocation \<open>busy_env\<close> on \<open>seeded_db\<close>.\<close>

definition synced_db :: db where
  "synced_db =
     \<lparr>customers =
        [customer_values alice,
         \<lparr>row_id = ''C1'', row_name = Some ''Unknown Customer'', row_email = None,
          row_phone_number = None, row_total_visits = None, row_total_spent = None,
          row_updated_at = Some 1500\<rparr>],
      receipts = [receipt_values r100],
      line_items_tbl = [line_item_values r100 latte, line_item_values r100 muffin],
      sync_log = [1000, 2000]\<rparr>"

text \<open>A store on which no sync has run and no watermark has been seeded.\<close>

definition fresh_db :: db where
  "fresh_db = \<lparr>customers = [], receipts = [], line_items_tbl = [], sync_log = []\<rparr>"


text \<open>An invocation whose embedding service rejects the documents.\<close>

definition deaf_env :: env where
  "deaf_env = busy_env\<lparr>embed_and_store := (\<lambda>docs. False)\<rparr>"



text \<open>The connection is lost after five statements: the insert of the second line item
  is rejected, and so is everything sent after it.\<close>

definition lost_env :: env where
  "lost_env = busy_env\<lparr>db_fault := (\<lambda>n. 5 \<le> n)\<rparr>"


section \<open>Properties\<close>

subsection \<open>Reasoning about programs\<close>

lemma bind_p_Inr:
  "bind_p m f s = (Inr y, s') \<longleftrightarrow> (\<exists>x s1. m s = (Inr x, s1) \<and> f x s1 = (Inr y, s'))"
  by (cases "m s") (auto simp: bind_p_def split: sum.splits)

lemma bind_p_Inl:
  "bind_p m f s = (Inl x, s') \<longleftrightarrow>
     m s = (Inl x, s') \<or> (\<exists>y s1. m s = (Inr y, s1) \<and> f y s1 = (Inl x, s'))"
  by (cases "m s") (auto simp: bind_p_def split: sum.splits)

lemma bind_p_step: "m s = (Inr x, s1) \<Longrightarrow> bind_p m f s = f x s1"
  by (simp add: bind_p_def)

lemma bind_p_fail: "m s = (Inl x, s1) \<Longrightarrow> bind_p m f s = (Inl x, s1)"
  by (simp add: bind_p_def)

lemma preservesD: "preserves I m \<Longrightarrow> I s \<Longrightarrow> m s = (r, s') \<Longrightarrow> I s'"
  by (auto simp: preserves_def)

lemma preserves_return: "preserves I (return_p x)"
  by (simp add: preserves_def return_p_def)

lemma preserves_throw: "preserves I (throw_p x)"
  by (simp add: preserves_def throw_p_def)

lemma preserves_bind:
  "preserves I m \<Longrightarrow> (\<And>x. preserves I (f x)) \<Longrightarrow> preserves I (bind_p m f)"
  unfolding preserves_def bind_p_def
  by (auto split: prod.splits sum.splits)

lemma preserves_if:
  "(c \<Longrightarrow> preserves I m) \<Longrightarrow> (\<not> c \<Longrightarrow> preserves I n) \<Longrightarrow> preserves I (if c then m else n)"
  by simp

lemma preserves_case_option:
  "preserves I m \<Longrightarrow> (\<And>x. preserves I (f x)) \<Longrightarrow>
     preserves I (case b of None \<Rightarrow> m | Some x \<Rightarrow> f x)"
  by (cases b) simp_all

lemma preserves_case_list:
  "preserves I m \<Longrightarrow> (\<And>x xs. preserves I (f x xs)) \<Longrightarrow>
     preserves I (case l of [] \<Rightarrow> m | x # xs \<Rightarrow> f x xs)"
  by (cases l) simp_all

lemmas preserves_struct =
  preserves_return preserves_throw preserves_bind preserves_if preserves_case_option
  preserves_case_list

text \<open>Invariants that only look at the transaction's view of the tables.\<close>

lemma preserves_tx_query:
  assumes "\<And>d rows d'. J d \<Longrightarrow> exec_stmt q d = Inr (rows, d') \<Longrightarrow> J d'"
  shows "preserves (\<lambda>s. J (tx s)) (query e q)"
  using assms by (auto simp: preserves_def query_def Let_def split: sum.splits)

lemma preserves_tx_commit: "preserves (\<lambda>s. J (tx s)) (commit e)"
  by (simp add: preserves_def commit_def Let_def)

lemma preserves_tx_get_customers: "preserves (\<lambda>s. J (tx s)) (axios_get_customers e p)"
  by (simp add: preserves_def axios_get_customers_def Let_def split: sum.splits)

lemma preserves_tx_get_receipts: "preserves (\<lambda>s. J (tx s)) (axios_get_receipts e p)"
  by (simp add: preserves_def axios_get_receipts_def Let_def split: sum.splits)

lemma preserves_tx_embed: "preserves (\<lambda>s. J (tx s)) (axios_post_embed e docs)"
  by (simp add: preserves_def axios_post_embed_def Let_def)

text \<open>Nothing but \<open>commit\<close> touches what the store holds.\<close>

lemma preserves_durable_query: "preserves (\<lambda>s. J (durable s)) (query e q)"
  by (auto simp: preserves_def query_def Let_def split: sum.splits)

lemma preserves_durable_get_customers: "preserves (\<lambda>s. J (durable s)) (axios_get_customers e p)"
  by (simp add: preserves_def axios_get_customers_def Let_def split: sum.splits)

lemma preserves_durable_get_receipts: "preserves (\<lambda>s. J (durable s)) (axios_get_receipts e p)"
  by (simp add: preserves_def axios_get_receipts_def Let_def split: sum.splits)

lemma preserves_durable_embed: "preserves (\<lambda>s. J (durable s)) (axios_post_embed e docs)"
  by (simp add: preserves_def axios_post_embed_def Let_def)

lemmas preserves_durable =
  preserves_durable_query preserves_durable_get_customers preserves_durable_get_receipts
  preserves_durable_embed

lemma preserves_upsert_customers:
  assumes "\<And>v. preserves I (query e (InsertCustomerOnDuplicateKeyUpdate v))"
  shows "preserves I (upsert_customers e cs)"
  by (induction cs) (auto intro!: preserves_struct assms)

lemma preserves_save_line_items:
  assumes "\<And>v. preserves I (query e (InsertLineItem v))"
  shows "preserves I (save_line_items e r items acc)"
  by (induction items arbitrary: acc) (auto intro!: preserves_struct assms)

lemma preserves_save_receipt:
  assumes "\<And>i n t. preserves I (query e (InsertIgnoreCustomer i n t))"
    and "\<And>v. preserves I (query e (InsertReceipt v))"
    and "\<And>v. preserves I (query e (InsertLineItem v))"
  shows "preserves I (save_receipt e r)"
  unfolding save_receipt_def ensure_customer_stub_def Let_def
  by (intro preserves_struct preserves_save_line_items assms)

lemma preserves_save_receipts:
  assumes "\<And>i n t. preserves I (query e (InsertIgnoreCustomer i n t))"
    and "\<And>v. preserves I (query e (InsertReceipt v))"
    and "\<And>v. preserves I (query e (InsertLineItem v))"
  shows "preserves I (save_receipts e rs docs)"
  by (induction rs arbitrary: docs) (auto intro!: preserves_struct preserves_save_receipt assms)

subsection \<open>The customer statements\<close>

lemma on_duplicate_key_update_same_id:
  "row_id r = row_id v \<Longrightarrow> on_duplicate_key_update v r = v"
  by (cases r, cases v) (simp add: on_duplicate_key_update_def)

lemma upsert_customers_tbl:
  "customers (insert_customer_on_duplicate_key_update v d) =
     (if row_id v \<in> set (map row_id (customers d))
      then map (\<lambda>r. if row_id r = row_id v then v else r) (customers d)
      else customers d @ [v])"
  by (auto simp: insert_customer_on_duplicate_key_update_def on_duplicate_key_update_same_id)

lemma upsert_row_ids:
  "map row_id (customers (insert_customer_on_duplicate_key_update v d)) =
     (if row_id v \<in> set (map row_id (customers d)) then map row_id (customers d)
      else map row_id (customers d) @ [row_id v])"
  by (auto simp: upsert_customers_tbl intro!: map_idI)

lemma upsert_other_tables:
  "receipts (insert_customer_on_duplicate_key_update v d) = receipts d"
  "line_items_tbl (insert_customer_on_duplicate_key_update v d) = line_items_tbl d"
  "sync_log (insert_customer_on_duplicate_key_update v d) = sync_log d"
  by (simp_all add: insert_customer_on_duplicate_key_update_def)

lemma key_absent: "k \<notin> set (map f xs) \<Longrightarrow> x \<in> set xs \<Longrightarrow> f x \<noteq> k"
  by auto

lemma filter_replace_distinct:
  "distinct (map f xs) \<Longrightarrow> k \<in> set (map f xs) \<Longrightarrow> f v = k \<Longrightarrow>
     filter (\<lambda>r. f r = k) (map (\<lambda>r. if f r = k then v else r) xs) = [v]"
proof (induction xs)
  case Nil
  then show ?case by simp
next
  case (Cons x xs)
  show ?case
  proof (cases "f x = k")
    case True
    with Cons.prems have "k \<notin> set (map f xs)" by auto
    then have "filter (\<lambda>r. f r = k) (map (\<lambda>r. if f r = k then v else r) xs) = []"
      by (induction xs) auto
    with True Cons.prems show ?thesis by simp
  next
    case False
    with Cons show ?thesis by auto
  qed
qed

lemma upsert_one_row:
  assumes "distinct (map row_id (customers d))"
  shows "filter (\<lambda>r. row_id r = row_id v)
           (customers (insert_customer_on_duplicate_key_update v d)) = [v]"
proof (cases "row_id v \<in> set (map row_id (customers d))")
  case True
  then show ?thesis
    using filter_replace_distinct [OF assms True, of v] by (simp add: upsert_customers_tbl)
next
  case False
  then have "filter (\<lambda>r. row_id r = row_id v) (customers d) = []"
    using key_absent [of "row_id v" row_id "customers d"] by (simp add: filter_empty_conv)
  with False show ?thesis by (simp add: upsert_customers_tbl)
qed

lemma upsert_distinct:
  "distinct (map row_id (customers d)) \<Longrightarrow>
     distinct (map row_id (customers (insert_customer_on_duplicate_key_update v d)))"
  by (simp add: upsert_row_ids)

lemma upsert_twice:
  assumes "row_id v1 = row_id v2"
  shows "insert_customer_on_duplicate_key_update v2
           (insert_customer_on_duplicate_key_update v1 d) =
         insert_customer_on_duplicate_key_update v2 d"
proof -
  let ?d1 = "insert_customer_on_duplicate_key_update v1 d"
  have "customers (insert_customer_on_duplicate_key_update v2 ?d1) =
        customers (insert_customer_on_duplicate_key_update v2 d)"
  proof (cases "row_id v2 \<in> set (map row_id (customers d))")
    case True
    then have "row_id v2 \<in> set (map row_id (customers ?d1))"
      using assms by (simp add: upsert_row_ids)
    moreover have "customers ?d1 = map (\<lambda>r. if row_id r = row_id v2 then v1 else r) (customers d)"
      using True assms by (simp add: upsert_customers_tbl)
    ultimately have "customers (insert_customer_on_duplicate_key_update v2 ?d1) =
        map (\<lambda>r. if row_id r = row_id v2 then v2 else r) (customers d)"
      using assms by (simp add: upsert_customers_tbl [of v2] o_def)
    with True show ?thesis by (simp add: upsert_customers_tbl [of v2 d])
  next
    case False
    then have old: "map (\<lambda>r. if row_id r = row_id v2 then v2 else r) (customers d) = customers d"
      using key_absent [OF False] by (intro map_idI) simp
    have "customers ?d1 = customers d @ [v1]"
      using False assms by (simp add: upsert_customers_tbl)
    moreover have "row_id v2 \<in> set (map row_id (customers ?d1))"
      using False assms by (simp add: upsert_row_ids)
    ultimately have "customers (insert_customer_on_duplicate_key_update v2 ?d1) =
        customers d @ [v2]"
      using assms old by (simp add: upsert_customers_tbl [of v2])
    with False show ?thesis by (simp add: upsert_customers_tbl [of v2 d])
  qed
  then show ?thesis
    by (intro db.equality) (simp_all add: upsert_other_tables)
qed

lemma query_ok:
  "\<not> db_fault e (issued s) \<Longrightarrow> exec_stmt q (tx s) = Inr (rows, d) \<Longrightarrow>
     query e q s =
       (Inr rows, s\<lparr>issued := Suc (issued s), trace := trace s @ [EvQuery q], tx := d\<rparr>)"
  by (simp add: query_def Let_def)

lemma upsert_keeps_other_rows:
  "filter (\<lambda>r. row_id r \<noteq> row_id v)
     (customers (insert_customer_on_duplicate_key_update v d)) =
   filter (\<lambda>r. row_id r \<noteq> row_id v) (customers d)"
proof -
  have "filter (\<lambda>r. row_id r \<noteq> k) (map (\<lambda>r. if row_id r = k then v else r) xs) =
        filter (\<lambda>r. row_id r \<noteq> k) xs" if "row_id v = k" for k xs
    using that by (induction xs) auto
  then show ?thesis
    by (simp add: upsert_customers_tbl)
qed

text \<open>
  C4. Two upserts of records with one id (in particular twice the same record), on a
  table whose ids are distinct: both statements of the loop succeed; afterwards the
  table has exactly one row for the id, and each column of that row holds the field of
  the same name of the second record, whatever the \<open>updated_at\<close> of either record;
  the rows of other ids are as they were; the result is the one of the second upsert
  alone. The loop of lines 74-87, run on the two records, leaves exactly this table.
\<close>

theorem customer_upsert_last_write_wins:
  assumes "distinct (map row_id (customers d))" and "cust_id c1 = cust_id c2"
  shows "\<exists>d1 d2.
           exec_stmt (InsertCustomerOnDuplicateKeyUpdate (customer_values c1)) d = Inr ([], d1) \<and>
           exec_stmt (InsertCustomerOnDuplicateKeyUpdate (customer_values c2)) d1 = Inr ([], d2) \<and>
           filter (\<lambda>r. row_id r = cust_id c2) (customers d2) =
             [\<lparr>row_id = cust_id c2, row_name = cust_name c2, row_email = cust_email c2,
               row_phone_number = cust_phone_number c2,
               row_total_visits = Some (cust_total_visits c2),
               row_total_spent = Some (cust_total_spent c2),
               row_updated_at = Some (cust_updated_at c2)\<rparr>] \<and>
           filter (\<lambda>r. row_id r \<noteq> cust_id c2) (customers d2) =
             filter (\<lambda>r. row_id r \<noteq> cust_id c2) (customers d) \<and>
           distinct (map row_id (customers d2)) \<and>
           d2 = insert_customer_on_duplicate_key_update (customer_values c2) d \<and>
           (\<forall>s. tx s = d \<and> \<not> db_fault e (issued s) \<and> \<not> db_fault e (Suc (issued s)) \<longrightarrow>
                fst (upsert_customers e [c1, c2] s) = Inr () \<and>
                tx (snd (upsert_customers e [c1, c2] s)) = d2)"
proof -
  let ?v1 = "customer_values c1" and ?v2 = "customer_values c2"
  let ?d1 = "insert_customer_on_duplicate_key_update ?v1 d"
  let ?d2 = "insert_customer_on_duplicate_key_update ?v2 ?d1"
  have ids: "row_id ?v1 = row_id ?v2" "row_id ?v2 = cust_id c2"
    using assms(2) by (simp_all add: customer_values_def)
  have d1: "distinct (map row_id (customers ?d1))"
    by (rule upsert_distinct [OF assms(1)])
  have "filter (\<lambda>r. row_id r = cust_id c2) (customers ?d2) = [?v2]"
    using upsert_one_row [OF d1, of ?v2] by (simp only: ids)
  then have one: "filter (\<lambda>r. row_id r = cust_id c2) (customers ?d2) =
      [\<lparr>row_id = cust_id c2, row_name = cust_name c2, row_email = cust_email c2,
        row_phone_number = cust_phone_number c2,
        row_total_visits = Some (cust_total_visits c2),
        row_total_spent = Some (cust_total_spent c2),
        row_updated_at = Some (cust_updated_at c2)\<rparr>]"
    by (simp add: customer_values_def)
  have dist: "distinct (map row_id (customers ?d2))"
    by (rule upsert_distinct [OF d1])
  have same: "?d2 = insert_customer_on_duplicate_key_update ?v2 d"
    by (rule upsert_twice [OF ids(1)])
  have "filter (\<lambda>r. row_id r \<noteq> row_id ?v2)
          (customers (insert_customer_on_duplicate_key_update ?v2 d)) =
        filter (\<lambda>r. row_id r \<noteq> row_id ?v2) (customers d)"
    by (rule upsert_keeps_other_rows)
  then have others: "filter (\<lambda>r. row_id r \<noteq> cust_id c2) (customers ?d2) =
      filter (\<lambda>r. row_id r \<noteq> cust_id c2) (customers d)"
    by (simp only: same ids(2))
  have run: "fst (upsert_customers e [c1, c2] s) = Inr () \<and>
             tx (snd (upsert_customers e [c1, c2] s)) = ?d2"
    if "tx s = d \<and> \<not> db_fault e (issued s) \<and> \<not> db_fault e (Suc (issued s))" for s
    using that by (simp add: bind_p_def query_def Let_def return_p_def)
  show ?thesis
    using one others dist same run by (intro exI [of _ ?d1] exI [of _ ?d2]) simp
qed

subsection \<open>The placeholder insert\<close>

lemma insert_ignore_present:
  "i \<in> set (map row_id (customers d)) \<Longrightarrow> insert_ignore_customer i n t d = d"
  by (simp add: insert_ignore_customer_def)

lemma appended_only_refl: "appended_only (customers d) d"
  by (simp add: appended_only_def)

lemma appended_only_insert_ignore:
  assumes "appended_only c0 d"
  shows "appended_only c0 (insert_ignore_customer i n t d)"
proof (cases "i \<in> set (map row_id (customers d))")
  case True
  with assms show ?thesis by (simp add: insert_ignore_present)
next
  case False
  from assms obtain new where new: "customers d = c0 @ new"
    "\<forall>row \<in> set new. row_id row \<notin> set (map row_id c0)"
    by (auto simp: appended_only_def)
  let ?stub = "\<lparr>row_id = i, row_name = Some n, row_email = None, row_phone_number = None,
                row_total_visits = None, row_total_spent = None, row_updated_at = Some t\<rparr>"
  have "customers (insert_ignore_customer i n t d) = c0 @ (new @ [?stub])"
    using False new(1) by (simp add: insert_ignore_customer_def)
  moreover have "\<forall>row \<in> set (new @ [?stub]). row_id row \<notin> set (map row_id c0)"
    using False new by auto
  ultimately show ?thesis
    unfolding appended_only_def by blast
qed

lemma insert_receipt_customers:
  "insert_receipt v d = Inr d' \<Longrightarrow> customers d' = customers d"
  by (auto simp: insert_receipt_def split: if_splits option.splits)

lemma insert_line_item_customers:
  "insert_line_item v d = Inr d' \<Longrightarrow> customers d' = customers d"
  by (auto simp: insert_line_item_def split: if_splits)

lemma appended_only_save_receipts:
  "preserves (\<lambda>s. appended_only c0 (tx s)) (save_receipts e rs docs)"
proof (rule preserves_save_receipts)
  show "preserves (\<lambda>s. appended_only c0 (tx s)) (query e (InsertIgnoreCustomer i n t))" for i n t
    by (rule preserves_tx_query) (auto intro: appended_only_insert_ignore)
  show "preserves (\<lambda>s. appended_only c0 (tx s)) (query e (InsertReceipt v))" for v
    by (rule preserves_tx_query)
      (auto simp: appended_only_def dest: insert_receipt_customers split: sum.splits)
  show "preserves (\<lambda>s. appended_only c0 (tx s)) (query e (InsertLineItem v))" for v
    by (rule preserves_tx_query)
      (auto simp: appended_only_def dest: insert_line_item_customers split: sum.splits)
qed

lemma ensure_customer_stub_present:
  assumes "customer_id r = Some i" and "i \<in> set (map row_id (customers (tx s)))"
  shows "tx (snd (ensure_customer_stub e r s)) = tx s"
  using assms
  by (simp add: ensure_customer_stub_def return_p_def bind_p_def query_def Let_def
      insert_ignore_present)

text \<open>
  C5. \<^verbatim>\<open>INSERT IGNORE\<close> for an id that has a row succeeds and leaves the store as it
  was; for an absent id it appends the placeholder row. In the handler, the placeholder
  step of a receipt whose customer has a row changes nothing in the transaction, and
  the whole receipts loop keeps every customer row it found, adding rows only for ids
  that had none.
\<close>

theorem customer_stub_never_clobbers:
  "(i \<in> set (map row_id (customers d)) \<longrightarrow>
      exec_stmt (InsertIgnoreCustomer i n t) d = Inr ([], d)) \<and>
   (i \<notin> set (map row_id (customers d)) \<longrightarrow>
      exec_stmt (InsertIgnoreCustomer i n t) d =
        Inr ([], d\<lparr>customers := customers d @
              [\<lparr>row_id = i, row_name = Some n, row_email = None, row_phone_number = None,
                row_total_visits = None, row_total_spent = None,
                row_updated_at = Some t\<rparr>]\<rparr>)) \<and>
   (customer_id r = Some i \<and> i \<in> set (map row_id (customers (tx s))) \<longrightarrow>
      tx (snd (ensure_customer_stub e r s)) = tx s) \<and>
   (\<exists>new. customers (tx (snd (save_receipts e rs docs s))) = customers (tx s) @ new \<and>
      (\<forall>row \<in> set new. row_id row \<notin> set (map row_id (customers (tx s)))))"
proof -
  have "appended_only (customers (tx s)) (tx (snd (save_receipts e rs docs s)))"
    using appended_only_save_receipts [of "customers (tx s)" e rs docs] appended_only_refl [of "tx s"]
    by (simp add: preserves_def)
  then show ?thesis
    by (simp add: insert_ignore_customer_def ensure_customer_stub_present appended_only_def)
qed

subsection \<open>The document builder\<close>

lemma join_from_concat: "join_from sep acc xs = acc @ concat (map (\<lambda>x. sep @ x) xs)"
  by (induction xs arbitrary: acc) simp_all

lemma comma_joined_Cons: "comma_joined (x # xs) = x @ concat (map (\<lambda>y. '', '' @ y) xs)"
  by (induction xs arbitrary: x) simp_all

lemma join_comma_joined: "join '', '' xs = comma_joined xs"
  by (cases xs) (simp_all add: join_def join_from_concat comma_joined_Cons)

lemma save_line_items_result:
  "save_line_items e r items acc s = (Inr out, s') \<Longrightarrow> out = acc @ map (item_clause e) items"
proof (induction items arbitrary: acc s)
  case Nil
  then show ?case by (simp add: return_p_def)
next
  case (Cons i items)
  from Cons.prems obtain s1 where
    "save_line_items e r items (acc @ [item_clause e i]) s1 = (Inr out, s')"
    by (auto simp: bind_p_Inr item_clause_def)
  from Cons.IH [OF this] show ?case by simp
qed

lemma save_receipt_result:
  assumes "save_receipt e r s = (Inr doc, s')"
  shows "doc = buildSummary e r (line_items r)"
proof -
  from assms obtain out s3 s4 where
    items: "save_line_items e r (line_items r) [] s3 = (Inr out, s4)" and
    doc: "doc = ''On '' @ toLocaleString e (created_at r) @ '', receipt '' @ receipt_number r @
           '' was created totaling '' @ number_toString e (total_money r) @
           ''. Items sold: '' @ join '', '' out @ ''.''"
    unfolding save_receipt_def Let_def by (auto simp: bind_p_Inr return_p_def)
  from save_line_items_result [OF items] doc show ?thesis
    by (simp add: buildSummary_def join_comma_joined)
qed

lemma save_receipts_result:
  "save_receipts e rs docs s = (Inr out, s') \<Longrightarrow>
     out = docs @ map (\<lambda>r. buildSummary e r (line_items r)) rs"
proof (induction rs arbitrary: docs s)
  case Nil
  then show ?case by (simp add: return_p_def)
next
  case (Cons r rs)
  from Cons.prems obtain doc s1 where
    one: "save_receipt e r s = (Inr doc, s1)" and
    rest: "save_receipts e rs (docs @ [doc]) s1 = (Inr out, s')"
    by (auto simp: bind_p_Inr)
  from Cons.IH [OF rest] save_receipt_result [OF one] show ?case by simp
qed

lemma insert_line_item_ok:
  "li_receipt_number v \<in> set (map rr_receipt_number (receipts d)) \<Longrightarrow>
     exec_stmt (InsertLineItem v) d = Inr ([], d\<lparr>line_items_tbl := line_items_tbl d @ [v]\<rparr>)"
  by (simp add: insert_line_item_def)

lemma save_line_items_runs:
  assumes "\<forall>n. \<not> db_fault e n"
  shows "receipt_number r \<in> set (map rr_receipt_number (receipts (tx s))) \<Longrightarrow>
     \<exists>s'. save_line_items e r items acc s = (Inr (acc @ map (item_clause e) items), s')"
proof (induction items arbitrary: acc s)
  case Nil
  then show ?case by (simp add: return_p_def)
next
  case (Cons i items)
  let ?v = "line_item_values r i"
  let ?s1 = "s\<lparr>issued := Suc (issued s), trace := trace s @ [EvQuery (InsertLineItem ?v)],
               tx := (tx s)\<lparr>line_items_tbl := line_items_tbl (tx s) @ [?v]\<rparr>\<rparr>"
  have "li_receipt_number ?v \<in> set (map rr_receipt_number (receipts (tx s)))"
    using Cons.prems by (simp add: line_item_values_def)
  then have step: "query e (InsertLineItem ?v) s = (Inr [], ?s1)"
    using assms by (intro query_ok insert_line_item_ok) simp_all
  have "receipt_number r \<in> set (map rr_receipt_number (receipts (tx ?s1)))"
    using Cons.prems by simp
  from Cons.IH [OF this, of "acc @ [item_clause e i]"] show ?case
    by (simp add: bind_p_def step item_clause_def)
qed

lemma save_receipt_runs:
  assumes "\<forall>n. \<not> db_fault e n"
    and "receipt_number r \<notin> set (map rr_receipt_number (receipts (tx s)))"
    and "customer_id r \<noteq> Some []"
  shows "\<exists>s'. save_receipt e r s = (Inr (buildSummary e r (line_items r)), s')"
proof -
  obtain u s1 where stub: "ensure_customer_stub e r s = (Inr u, s1)"
    and rec1: "receipts (tx s1) = receipts (tx s)"
    and cust1: "\<forall>c. customer_id r = Some c \<longrightarrow> c \<in> set (map row_id (customers (tx s1)))"
    using assms(1,3)
    by (cases "customer_id r")
      (auto simp: ensure_customer_stub_def return_p_def bind_p_def query_def Let_def
        insert_ignore_customer_def)
  let ?v = "receipt_values r"
  let ?d2 = "(tx s1)\<lparr>receipts := receipts (tx s1) @ [?v]\<rparr>"
  let ?s2 = "s1\<lparr>issued := Suc (issued s1), trace := trace s1 @ [EvQuery (InsertReceipt ?v)],
               tx := ?d2\<rparr>"
  have "exec_stmt (InsertReceipt ?v) (tx s1) = Inr ([], ?d2)"
    using assms(2) rec1 cust1
    by (cases "customer_id r") (simp_all add: insert_receipt_def receipt_values_def)
  then have ins: "query e (InsertReceipt ?v) s1 = (Inr [], ?s2)"
    using assms(1) by (intro query_ok) simp_all
  have "receipt_number r \<in> set (map rr_receipt_number (receipts (tx ?s2)))"
    by (simp add: receipt_values_def)
  from save_line_items_runs [OF assms(1) this, of "line_items r" "[]"]
  obtain s3 where items:
    "save_line_items e r (line_items r) [] ?s2 = (Inr (map (item_clause e) (line_items r)), s3)"
    by auto
  have "save_receipt e r s =
          (Inr (''On '' @ toLocaleString e (created_at r) @ '', receipt '' @ receipt_number r @
           '' was created totaling '' @ number_toString e (total_money r) @
           ''. Items sold: '' @ join '', '' (map (item_clause e) (line_items r)) @ ''.''), s3)"
    unfolding save_receipt_def Let_def
    by (simp add: bind_p_def stub ins items return_p_def)
  then show ?thesis
    by (simp add: buildSummary_def join_comma_joined)
qed

text \<open>
  C8. Whenever the loop body builds the text of a receipt, the text is
  \<open>buildSummary\<close> of the receipt and its line items, whatever the state of the
  connection; the loop returns these texts in the order of the receipts; and the body
  does build the text when no statement is rejected, the receipt number is new and the
  customer id is not the empty string.
\<close>

theorem document_builder_output:
  "(\<forall>s doc s'. save_receipt e r s = (Inr doc, s') \<longrightarrow> doc = buildSummary e r (line_items r)) \<and>
   (\<forall>s out s'. save_receipts e rs [] s = (Inr out, s') \<longrightarrow>
      out = map (\<lambda>r. buildSummary e r (line_items r)) rs) \<and>
   ((\<forall>n. \<not> db_fault e n) \<and>
    receipt_number r \<notin> set (map rr_receipt_number (receipts (tx s0))) \<and>
    customer_id r \<noteq> Some [] \<longrightarrow>
      fst (save_receipt e r s0) = Inr (buildSummary e r (line_items r)))"
proof (intro conjI allI impI)
  fix s doc s'
  assume "save_receipt e r s = (Inr doc, s')"
  then show "doc = buildSummary e r (line_items r)" by (rule save_receipt_result)
next
  fix s out s'
  assume "save_receipts e rs [] s = (Inr out, s')"
  from save_receipts_result [OF this] show "out = map (\<lambda>r. buildSummary e r (line_items r)) rs"
    by simp
next
  assume "(\<forall>n. \<not> db_fault e n) \<and>
    receipt_number r \<notin> set (map rr_receipt_number (receipts (tx s0))) \<and>
    customer_id r \<noteq> Some []"
  then obtain s' where "save_receipt e r s0 = (Inr (buildSummary e r (line_items r)), s')"
    using save_receipt_runs [of e r s0] by blast
  then show "fst (save_receipt e r s0) = Inr (buildSummary e r (line_items r))" by simp
qed

lemma quiet_env_simps:
  "clock quiet_env = 2000" "db_fault quiet_env n = False"
  "get_customers quiet_env p = Inr (Some [])" "get_receipts quiet_env p = Inr (Some [])"
  "embed_and_store quiet_env docs = True"
  "toLocaleString quiet_env t = ''8/1/2025, 12:00:01 AM''"
  "number_toString quiet_env = show_number"
  by (simp_all add: quiet_env_def)

lemma busy_env_simps:
  "clock busy_env = 2000" "db_fault busy_env n = False"
  "get_customers busy_env p = Inr (Some [alice])" "get_receipts busy_env p = Inr (Some [r100])"
  "embed_and_store busy_env docs = True"
  "toLocaleString busy_env t = ''8/1/2025, 12:00:01 AM''"
  "number_toString busy_env = show_number"
  by (simp_all add: busy_env_def quiet_env_def)

theorem document_builder_output_witness:
  "(\<forall>n. \<not> db_fault busy_env n) \<and>
   receipt_number r100 \<notin> set (map rr_receipt_number (receipts (tx (beginTransaction seeded_db)))) \<and>
   customer_id r100 \<noteq> Some [] \<and>
   fst (save_receipt busy_env r100 (beginTransaction seeded_db)) =
     Inr ''On 8/1/2025, 12:00:01 AM, receipt R-100 was created totaling 11. Items sold: 2 of Latte, 1 of Muffin.''"
proof -
  have h: "(\<forall>n. \<not> db_fault busy_env n) \<and>
    receipt_number r100 \<notin> set (map rr_receipt_number (receipts (tx (beginTransaction seeded_db)))) \<and>
    customer_id r100 \<noteq> Some []"
    by (simp add: busy_env_simps r100_def beginTransaction_def seeded_db_def)
  have summary: "buildSummary busy_env r100 (line_items r100) =
    ''On 8/1/2025, 12:00:01 AM, receipt R-100 was created totaling 11. Items sold: 2 of Latte, 1 of Muffin.''"
    by (simp add: buildSummary_def item_clause_def busy_env_simps r100_def latte_def muffin_def
        show_number_def)
  from document_builder_output [of busy_env r100 "[]" "beginTransaction seeded_db"] h
  have "fst (save_receipt busy_env r100 (beginTransaction seeded_db)) =
          Inr (buildSummary busy_env r100 (line_items r100))"
    by blast
  with h summary show ?thesis by simp
qed

theorem customer_upsert_last_write_wins_witness:
  "distinct (map row_id (customers synced_db)) \<and> cust_id alice = cust_id alice_earlier \<and>
   cust_updated_at alice_earlier < cust_updated_at alice \<and>
   fst (upsert_customers quiet_env [alice, alice_earlier] (beginTransaction synced_db)) = Inr () \<and>
   filter (\<lambda>r. row_id r = ''C7'')
     (customers (tx (snd (upsert_customers quiet_env [alice, alice_earlier]
        (beginTransaction synced_db))))) =
     [\<lparr>row_id = ''C7'', row_name = Some ''Alice B'', row_email = Some ''a@b.c'',
       row_phone_number = None, row_total_visits = Some 2, row_total_spent = Some 25,
       row_updated_at = Some 500\<rparr>] \<and>
   filter (\<lambda>r. row_id r \<noteq> ''C7'')
     (customers (tx (snd (upsert_customers quiet_env [alice, alice_earlier]
        (beginTransaction synced_db))))) =
     [\<lparr>row_id = ''C1'', row_name = Some ''Unknown Customer'', row_email = None,
       row_phone_number = None, row_total_visits = None, row_total_spent = None,
       row_updated_at = Some 1500\<rparr>]"
proof -
  let ?s = "beginTransaction synced_db"
  let ?run = "upsert_customers quiet_env [alice, alice_earlier] ?s"
  have h1: "distinct (map row_id (customers synced_db))"
    by (simp add: synced_db_def customer_values_def alice_def)
  have h2: "cust_id alice = cust_id alice_earlier"
    by (simp add: alice_def alice_earlier_def)
  have h3: "tx ?s = synced_db \<and> \<not> db_fault quiet_env (issued ?s) \<and>
      \<not> db_fault quiet_env (Suc (issued ?s))"
    by (simp add: beginTransaction_def quiet_env_simps)
  have older: "cust_updated_at alice_earlier < cust_updated_at alice"
    by (simp add: alice_def alice_earlier_def)
  from customer_upsert_last_write_wins [OF h1 h2, of quiet_env] h3
  obtain d2 where
    one: "filter (\<lambda>r. row_id r = cust_id alice_earlier) (customers d2) =
       [\<lparr>row_id = cust_id alice_earlier, row_name = cust_name alice_earlier,
         row_email = cust_email alice_earlier,
         row_phone_number = cust_phone_number alice_earlier,
         row_total_visits = Some (cust_total_visits alice_earlier),
         row_total_spent = Some (cust_total_spent alice_earlier),
         row_updated_at = Some (cust_updated_at alice_earlier)\<rparr>]" and
    others: "filter (\<lambda>r. row_id r \<noteq> cust_id alice_earlier) (customers d2) =
       filter (\<lambda>r. row_id r \<noteq> cust_id alice_earlier) (customers synced_db)" and
    ok: "fst ?run = Inr ()" and run: "tx (snd ?run) = d2"
    by blast
  from one have one': "filter (\<lambda>r. row_id r = ''C7'') (customers d2) =
     [\<lparr>row_id = ''C7'', row_name = Some ''Alice B'', row_email = Some ''a@b.c'',
       row_phone_number = None, row_total_visits = Some 2, row_total_spent = Some 25,
       row_updated_at = Some 500\<rparr>]"
    by (simp add: alice_earlier_def)
  from others have others': "filter (\<lambda>r. row_id r \<noteq> ''C7'') (customers d2) =
     [\<lparr>row_id = ''C1'', row_name = Some ''Unknown Customer'', row_email = None,
       row_phone_number = None, row_total_visits = None, row_total_spent = None,
       row_updated_at = Some 1500\<rparr>]"
    by (simp add: alice_earlier_def synced_db_def customer_values_def alice_def)
  from h1 h2 older ok one' others' show ?thesis
    by (simp only: run)
qed

theorem customer_stub_never_clobbers_witness:
  "''C7'' \<in> set (map row_id (customers (insert_customer_on_duplicate_key_update
       (customer_values alice) seeded_db))) \<and>
   exec_stmt (InsertIgnoreCustomer ''C7'' ''Unknown Customer'' 1500)
     (insert_customer_on_duplicate_key_update (customer_values alice) seeded_db) =
     Inr ([], insert_customer_on_duplicate_key_update (customer_values alice) seeded_db) \<and>
   ''C1'' \<notin> set (map row_id (customers seeded_db)) \<and>
   exec_stmt (InsertIgnoreCustomer ''C1'' ''Unknown Customer'' 1500) seeded_db =
     Inr ([], seeded_db\<lparr>customers :=
        [\<lparr>row_id = ''C1'', row_name = Some ''Unknown Customer'', row_email = None,
          row_phone_number = None, row_total_visits = None, row_total_spent = None,
          row_updated_at = Some 1500\<rparr>]\<rparr>)"
proof -
  let ?d = "insert_customer_on_duplicate_key_update (customer_values alice) seeded_db"
  have h1: "''C7'' \<in> set (map row_id (customers ?d))"
    by (simp add: upsert_row_ids customer_values_def alice_def seeded_db_def)
  have h2: "''C1'' \<notin> set (map row_id (customers seeded_db))"
    by (simp add: seeded_db_def)
  have c: "customers seeded_db = []"
    by (simp add: seeded_db_def)
  from customer_stub_never_clobbers [of "''C7''" ?d "''Unknown Customer''" 1500 r100
      "beginTransaction seeded_db" quiet_env "[]" "[]"] h1
  have a: "exec_stmt (InsertIgnoreCustomer ''C7'' ''Unknown Customer'' 1500) ?d = Inr ([], ?d)"
    by blast
  from customer_stub_never_clobbers [of "''C1''" seeded_db "''Unknown Customer''" 1500 r100
      "beginTransaction seeded_db" quiet_env "[]" "[]"] h2
  have b: "exec_stmt (InsertIgnoreCustomer ''C1'' ''Unknown Customer'' 1500) seeded_db =
     Inr ([], seeded_db\<lparr>customers := customers seeded_db @
        [\<lparr>row_id = ''C1'', row_name = Some ''Unknown Customer'', row_email = None,
          row_phone_number = None, row_total_visits = None, row_total_spent = None,
          row_updated_at = Some 1500\<rparr>]\<rparr>)"
    by blast
  from a b h1 h2 c show ?thesis by simp
qed

subsection \<open>What each step of the handler does\<close>

lemma query_frame:
  "query e q s = (r, s') \<Longrightarrow>
     durable s' = durable s \<and> issued s' = Suc (issued s) \<and> trace s' = trace s @ [EvQuery q]"
  by (auto simp: query_def Let_def split: if_splits sum.splits)

lemma query_Inr:
  "query e q s = (Inr rows, s') \<Longrightarrow>
     \<not> db_fault e (issued s) \<and> exec_stmt q (tx s) = Inr (rows, tx s')"
  by (auto simp: query_def Let_def split: if_splits sum.splits)

lemma query_Inl: "query e q s = (Inl x, s') \<Longrightarrow> tx s' = tx s"
  by (auto simp: query_def Let_def split: if_splits sum.splits)

lemma commit_frame:
  "commit e s = (r, s') \<Longrightarrow>
     tx s' = tx s \<and> issued s' = Suc (issued s) \<and> trace s' = trace s @ [EvCommit]"
  by (auto simp: commit_def Let_def split: if_splits)


lemma commit_Inl: "commit e s = (Inl x, s') \<Longrightarrow> durable s' = durable s"
  by (auto simp: commit_def Let_def split: if_splits)

lemma commit_ok:
  "\<not> db_fault e (issued s) \<Longrightarrow>
     commit e s =
       (Inr (), s\<lparr>issued := Suc (issued s), trace := trace s @ [EvCommit], durable := tx s\<rparr>)"
  by (simp add: commit_def Let_def)

lemma select_last_sync_eq:
  "select_last_sync d = (if sync_log d = [] then [] else [last (sync_log d)])"
  by (cases "rev (sync_log d)") (auto simp: select_last_sync_def dest: arg_cong [where f = hd] simp: hd_rev)

lemma read_last_sync_frame:
  "read_last_sync e s = (r, s') \<Longrightarrow>
     durable s' = durable s \<and> tx s' = tx s \<and> issued s' = Suc (issued s) \<and>
     trace s' = trace s @ [EvQuery SelectLastSync]"
  by (auto simp: read_last_sync_def bind_p_def query_def Let_def return_p_def throw_p_def
      split: if_splits list.splits)

lemma read_last_sync_Inr:
  "read_last_sync e s = (Inr t, s') \<Longrightarrow>
     sync_log (tx s) \<noteq> [] \<and> t = last (sync_log (tx s)) \<and> \<not> db_fault e (issued s)"
  by (auto simp: read_last_sync_def bind_p_def query_def Let_def return_p_def throw_p_def
      select_last_sync_eq split: if_splits list.splits)

lemma read_last_sync_empty:
  "sync_log (tx s) = [] \<Longrightarrow> \<exists>x. fst (read_last_sync e s) = Inl x"
  by (simp add: read_last_sync_def bind_p_def query_def Let_def throw_p_def select_last_sync_eq)

lemma read_last_sync_ok:
  "sync_log (tx s) \<noteq> [] \<Longrightarrow> \<not> db_fault e (issued s) \<Longrightarrow>
     read_last_sync e s =
       (Inr (last (sync_log (tx s))),
        s\<lparr>issued := Suc (issued s), trace := trace s @ [EvQuery SelectLastSync]\<rparr>)"
  by (simp add: read_last_sync_def bind_p_def query_def Let_def return_p_def select_last_sync_eq)

text \<open>Steps that only append events of one kind to the trace.\<close>

lemma extends_by_refl: "extends_by P (trace s) s"
  by (simp add: extends_by_def)

lemma extends_by_query: "P (EvQuery q) \<Longrightarrow> preserves (extends_by P t0) (query e q)"
  by (auto simp: preserves_def extends_by_def query_def Let_def split: sum.splits)


lemma extends_by_get_customers:
  "P (EvGetCustomers p) \<Longrightarrow> preserves (extends_by P t0) (axios_get_customers e p)"
  by (auto simp: preserves_def extends_by_def axios_get_customers_def Let_def split: sum.splits)



lemma extends_byD:
  "preserves (extends_by P (trace s)) m \<Longrightarrow> m s = (r, s') \<Longrightarrow>
     \<exists>evs. trace s' = trace s @ evs \<and> list_all P evs"
  using preservesD [of "extends_by P (trace s)" m s r s'] extends_by_refl [of P s]
  by (simp add: extends_by_def)

text \<open>Step 2.\<close>

lemma preserves_sync_customers:
  assumes "preserves I (axios_get_customers e p)"
    and "\<And>v. preserves I (query e (InsertCustomerOnDuplicateKeyUpdate v))"
  shows "preserves I (sync_customers e p)"
  unfolding sync_customers_def Let_def
  by (intro preserves_struct preserves_upsert_customers assms)

lemma sync_customers_Inr:
  "sync_customers e p s = (Inr cs, s') \<Longrightarrow>
     \<exists>b. get_customers e p = Inr b \<and> cs = (case b of None \<Rightarrow> [] | Some cs \<Rightarrow> cs)"
  by (auto simp: sync_customers_def Let_def bind_p_Inr return_p_def axios_get_customers_def
      split: sum.splits)

lemma sync_customers_none:
  "sync_customers e p s = (Inr [], s') \<Longrightarrow>
     s' = s\<lparr>trace := trace s @ [EvGetCustomers p]\<rparr>"
  by (auto simp: sync_customers_def Let_def bind_p_Inr return_p_def axios_get_customers_def
      split: sum.splits option.splits)

lemma sync_customers_frame:
  assumes "sync_customers e p s = (r, s')"
  shows "durable s' = durable s" and "receipts (tx s') = receipts (tx s)"
    and "sync_log (tx s') = sync_log (tx s)"
    and "line_items_tbl (tx s') = line_items_tbl (tx s)"
    and "\<exists>evs. trace s' = trace s @ evs \<and>
           list_all (\<lambda>ev. \<not> is_embed ev \<and> \<not> is_watermark_append ev \<and> ev \<noteq> EvCommit) evs"
proof -
  have "preserves (\<lambda>s'. durable s' = durable s) (sync_customers e p)"
    by (intro preserves_sync_customers preserves_durable)
  from preservesD [OF this _ assms] show "durable s' = durable s" by simp
  have "preserves (\<lambda>s'. receipts (tx s') = receipts (tx s) \<and> sync_log (tx s') = sync_log (tx s)
          \<and> line_items_tbl (tx s') = line_items_tbl (tx s)) (sync_customers e p)"
    by (intro preserves_sync_customers preserves_tx_get_customers preserves_tx_query)
      (auto simp: upsert_other_tables)
  from preservesD [OF this _ assms]
  show "receipts (tx s') = receipts (tx s)" "sync_log (tx s') = sync_log (tx s)"
    "line_items_tbl (tx s') = line_items_tbl (tx s)" by simp_all
  have "preserves (extends_by (\<lambda>ev. \<not> is_embed ev \<and> \<not> is_watermark_append ev \<and> ev \<noteq> EvCommit)
          (trace s)) (sync_customers e p)"
    by (intro preserves_sync_customers extends_by_query extends_by_get_customers) simp_all
  from extends_byD [OF this assms]
  show "\<exists>evs. trace s' = trace s @ evs \<and>
           list_all (\<lambda>ev. \<not> is_embed ev \<and> \<not> is_watermark_append ev \<and> ev \<noteq> EvCommit) evs" .
qed

text \<open>Step 3.\<close>

lemma fetch_receipts_frame:
  "fetch_receipts e p s = (r, s') \<Longrightarrow> s' = s\<lparr>trace := trace s @ [EvGetReceipts p]\<rparr>"
  by (auto simp: fetch_receipts_def bind_p_def axios_get_receipts_def Let_def return_p_def
      throw_p_def split: sum.splits option.splits)

lemma fetch_receipts_same:
  "fetch_receipts e p s = (r, s') \<Longrightarrow>
     durable s' = durable s \<and> tx s' = tx s \<and> issued s' = issued s"
  by (auto dest: fetch_receipts_frame)

lemma fetch_receipts_Inr:
  "fetch_receipts e p s = (Inr rs, s') \<longleftrightarrow>
     get_receipts e p = Inr (Some rs) \<and> s' = s\<lparr>trace := trace s @ [EvGetReceipts p]\<rparr>"
  by (auto simp: fetch_receipts_def bind_p_def axios_get_receipts_def Let_def return_p_def
      throw_p_def split: sum.splits option.splits)


text \<open>Step 4.\<close>

lemma insert_receipt_tables:
  "insert_receipt v d = Inr d' \<Longrightarrow>
     sync_log d' = sync_log d \<and> receipts d' = receipts d @ [v]"
  by (auto simp: insert_receipt_def split: if_splits option.splits)

lemma insert_line_item_tables:
  "insert_line_item v d = Inr d' \<Longrightarrow> sync_log d' = sync_log d \<and> receipts d' = receipts d"
  by (auto simp: insert_line_item_def split: if_splits)

lemma insert_ignore_tables:
  "sync_log (insert_ignore_customer i n t d) = sync_log d"
  "receipts (insert_ignore_customer i n t d) = receipts d"
  by (simp_all add: insert_ignore_customer_def)

lemma save_receipts_frame:
  assumes "save_receipts e rs docs s = (r, s')"
  shows "durable s' = durable s" and "sync_log (tx s') = sync_log (tx s)"
    and "\<exists>evs. trace s' = trace s @ evs \<and>
           list_all (\<lambda>ev. \<not> is_embed ev \<and> \<not> is_watermark_append ev \<and> ev \<noteq> EvCommit) evs"
proof -
  have "preserves (\<lambda>s'. durable s' = durable s) (save_receipts e rs docs)"
    by (intro preserves_save_receipts preserves_durable)
  from preservesD [OF this _ assms] show "durable s' = durable s" by simp
  have "preserves (\<lambda>s'. sync_log (tx s') = sync_log (tx s)) (save_receipts e rs docs)"
    by (intro preserves_save_receipts preserves_tx_query)
      (auto simp: insert_ignore_tables dest: insert_receipt_tables insert_line_item_tables
        split: sum.splits)
  from preservesD [OF this _ assms] show "sync_log (tx s') = sync_log (tx s)" by simp
  have "preserves (extends_by (\<lambda>ev. \<not> is_embed ev \<and> \<not> is_watermark_append ev \<and> ev \<noteq> EvCommit)
          (trace s)) (save_receipts e rs docs)"
    by (intro preserves_save_receipts extends_by_query) simp_all
  from extends_byD [OF this assms]
  show "\<exists>evs. trace s' = trace s @ evs \<and>
           list_all (\<lambda>ev. \<not> is_embed ev \<and> \<not> is_watermark_append ev \<and> ev \<noteq> EvCommit) evs" .
qed

text \<open>Step 5.\<close>

lemma send_documents_frame:
  "send_documents e docs s = (r, s') \<Longrightarrow>
     s' = s\<lparr>trace := trace s @ (if docs = [] then [] else [EvEmbed docs])\<rparr>"
  by (auto simp: send_documents_def axios_post_embed_def Let_def return_p_def split: if_splits)

lemma send_documents_same:
  "send_documents e docs s = (r, s') \<Longrightarrow>
     durable s' = durable s \<and> tx s' = tx s \<and> issued s' = issued s"
  by (auto dest: send_documents_frame)

lemma send_documents_Inl:
  "send_documents e docs s = (Inl x, s') \<longleftrightarrow>
     docs \<noteq> [] \<and> \<not> embed_and_store e docs \<and> x = AxiosError \<and>
     s' = s\<lparr>trace := trace s @ [EvEmbed docs]\<rparr>"
  by (auto simp: send_documents_def axios_post_embed_def Let_def return_p_def split: if_splits)

subsection \<open>The ways through the try block\<close>

lemma sync_try_cases [consumes 1, case_names no_watermark customers_failed receipts_failed
    noop_commit_failed noop saving_failed indexing_failed append_failed commit_failed synced]:
  assumes run: "sync_try e s = (r, s')"
  obtains
    x where "read_last_sync e s = (Inl x, s')" "r = Inl x"
  | t s1 x where "read_last_sync e s = (Inr t, s1)"
      "sync_customers e \<lparr>created_at_min = t, created_at_max = clock e, limit = 250\<rparr> s1 = (Inl x, s')"
      "r = Inl x"
  | t s1 cs s2 x where "read_last_sync e s = (Inr t, s1)"
      "sync_customers e \<lparr>created_at_min = t, created_at_max = clock e, limit = 250\<rparr> s1 = (Inr cs, s2)"
      "fetch_receipts e \<lparr>created_at_min = t, created_at_max = clock e, limit = 250\<rparr> s2 = (Inl x, s')"
      "r = Inl x"
  | t s1 s2 s3 x where "read_last_sync e s = (Inr t, s1)"
      "sync_customers e \<lparr>created_at_min = t, created_at_max = clock e, limit = 250\<rparr> s1 = (Inr [], s2)"
      "fetch_receipts e \<lparr>created_at_min = t, created_at_max = clock e, limit = 250\<rparr> s2 = (Inr [], s3)"
      "commit e s3 = (Inl x, s')" "r = Inl x"
  | t s1 s2 s3 where "read_last_sync e s = (Inr t, s1)"
      "sync_customers e \<lparr>created_at_min = t, created_at_max = clock e, limit = 250\<rparr> s1 = (Inr [], s2)"
      "fetch_receipts e \<lparr>created_at_min = t, created_at_max = clock e, limit = 250\<rparr> s2 = (Inr [], s3)"
      "commit e s3 = (Inr (), s')" "r = Inr NoNewData"
  | t s1 cs s2 rs s3 x where "read_last_sync e s = (Inr t, s1)"
      "sync_customers e \<lparr>created_at_min = t, created_at_max = clock e, limit = 250\<rparr> s1 = (Inr cs, s2)"
      "fetch_receipts e \<lparr>created_at_min = t, created_at_max = clock e, limit = 250\<rparr> s2 = (Inr rs, s3)"
      "rs \<noteq> [] \<or> cs \<noteq> []"
      "save_receipts e rs [] s3 = (Inl x, s')" "r = Inl x"
  | t s1 cs s2 rs s3 docs s4 x where "read_last_sync e s = (Inr t, s1)"
      "sync_customers e \<lparr>created_at_min = t, created_at_max = clock e, limit = 250\<rparr> s1 = (Inr cs, s2)"
      "fetch_receipts e \<lparr>created_at_min = t, created_at_max = clock e, limit = 250\<rparr> s2 = (Inr rs, s3)"
      "rs \<noteq> [] \<or> cs \<noteq> []"
      "save_receipts e rs [] s3 = (Inr docs, s4)"
      "send_documents e docs s4 = (Inl x, s')" "r = Inl x"
  | t s1 cs s2 rs s3 docs s4 s5 x where "read_last_sync e s = (Inr t, s1)"
      "sync_customers e \<lparr>created_at_min = t, created_at_max = clock e, limit = 250\<rparr> s1 = (Inr cs, s2)"
      "fetch_receipts e \<lparr>created_at_min = t, created_at_max = clock e, limit = 250\<rparr> s2 = (Inr rs, s3)"
      "rs \<noteq> [] \<or> cs \<noteq> []"
      "save_receipts e rs [] s3 = (Inr docs, s4)"
      "send_documents e docs s4 = (Inr (), s5)"
      "query e (InsertSyncLog (clock e)) s5 = (Inl x, s')" "r = Inl x"
  | t s1 cs s2 rs s3 docs s4 s5 rows s6 x where "read_last_sync e s = (Inr t, s1)"
      "sync_customers e \<lparr>created_at_min = t, created_at_max = clock e, limit = 250\<rparr> s1 = (Inr cs, s2)"
      "fetch_receipts e \<lparr>created_at_min = t, created_at_max = clock e, limit = 250\<rparr> s2 = (Inr rs, s3)"
      "rs \<noteq> [] \<or> cs \<noteq> []"
      "save_receipts e rs [] s3 = (Inr docs, s4)"
      "send_documents e docs s4 = (Inr (), s5)"
      "query e (InsertSyncLog (clock e)) s5 = (Inr rows, s6)"
      "commit e s6 = (Inl x, s')" "r = Inl x"
  | t s1 cs s2 rs s3 docs s4 s5 rows s6 where "read_last_sync e s = (Inr t, s1)"
      "sync_customers e \<lparr>created_at_min = t, created_at_max = clock e, limit = 250\<rparr> s1 = (Inr cs, s2)"
      "fetch_receipts e \<lparr>created_at_min = t, created_at_max = clock e, limit = 250\<rparr> s2 = (Inr rs, s3)"
      "rs \<noteq> [] \<or> cs \<noteq> []"
      "save_receipts e rs [] s3 = (Inr docs, s4)"
      "send_documents e docs s4 = (Inr (), s5)"
      "query e (InsertSyncLog (clock e)) s5 = (Inr rows, s6)"
      "commit e s6 = (Inr (), s')" "r = Inr (Synced (length rs) (length cs))"
proof (cases r)
  case (Inl x)
  from run have "sync_try e s = (Inl x, s')" by (simp add: Inl)
  then show ?thesis
    unfolding sync_try_def Let_def
    apply (simp add: bind_p_Inl return_p_def)
    apply (elim disjE exE conjE)
       apply (rule that(1), assumption, rule Inl)
      apply (rule that(2), assumption, assumption, rule Inl)
     apply (rule that(3), assumption, assumption, assumption, rule Inl)
    apply (simp split: if_splits add: bind_p_Inl return_p_def)
     apply (rule that(4), assumption, assumption, assumption, assumption, rule Inl)
    apply (elim disjE exE conjE)
       apply (rule that(6), assumption, assumption, assumption, blast, assumption, rule Inl)
      apply (rule that(7), assumption, assumption, assumption, blast, assumption, assumption,
        rule Inl)
     apply (rule that(8), assumption, assumption, assumption, blast, assumption, assumption,
        assumption, rule Inl)
    apply (rule that(9), assumption, assumption, assumption, blast, assumption, assumption,
        assumption, assumption, rule Inl)
    done
next
  case (Inr a)
  from run have "sync_try e s = (Inr a, s')" by (simp add: Inr)
  then show ?thesis
    unfolding sync_try_def Let_def
    apply (simp add: bind_p_Inr return_p_def)
    apply (elim exE conjE)
    apply (simp split: if_splits add: bind_p_Inr return_p_def)
     apply (elim exE conjE)
     apply (rule that(5), assumption, assumption, assumption, assumption, simp add: Inr)
    apply (elim exE conjE)
    apply (rule that(10), assumption, assumption, assumption, blast, assumption, assumption,
        assumption, assumption, simp add: Inr)
    done
qed

subsection \<open>The handler around the try block\<close>

lemma rollback_frame:
  "rollback e s = (r, s') \<Longrightarrow>
     durable s' = durable s \<and> issued s' = Suc (issued s) \<and> trace s' = trace s @ [EvRollback]"
  by (auto simp: rollback_def Let_def split: if_splits)

lemma post_api_sync_Inl:
  "sync_try e (beginTransaction d) = (Inl x, s') \<Longrightarrow>
     post_api_sync e d =
       \<lparr>response = (if db_fault e (issued s') then NoResponse else SyncFailed),
        store = durable s',
        session = (if db_fault e (issued s') then tx s' else durable s'),
        effects = trace s' @ [EvRollback]\<rparr>"
  by (simp add: post_api_sync_def rollback_def Let_def)

lemma post_api_sync_Inr:
  "sync_try e (beginTransaction d) = (Inr r, s') \<Longrightarrow>
     post_api_sync e d =
       \<lparr>response = r, store = durable s', session = tx s', effects = trace s'\<rparr>"
  by (simp add: post_api_sync_def)

lemma rollback_rejected_Inl:
  "sync_try e (beginTransaction d) = (Inl x, s') \<Longrightarrow>
     rollback_rejected e d = db_fault e (issued s')"
  by (simp add: rollback_rejected_def)

lemma rollback_rejected_Inr:
  "sync_try e (beginTransaction d) = (Inr r, s') \<Longrightarrow> \<not> rollback_rejected e d"
  by (simp add: rollback_rejected_def)

lemma healthy_connection:
  "\<forall>n. \<not> db_fault e n \<Longrightarrow> \<not> rollback_rejected e d"
  by (auto simp: rollback_rejected_def split: prod.splits sum.splits)

lemma sync_try_Inr_response:
  "sync_try e s = (Inr r, s') \<Longrightarrow> r = NoNewData \<or> (\<exists>n m. r = Synced n m)"
  by (cases rule: sync_try_cases) auto

lemma sync_try_Inl_durable:
  assumes "sync_try e s = (Inl x, s')"
  shows "durable s' = durable s"
  using assms
  by (cases rule: sync_try_cases)
    (simp_all add: read_last_sync_frame sync_customers_frame(1) fetch_receipts_same
      save_receipts_frame(1) send_documents_same query_frame commit_Inl)

lemma post_api_sync_thrown:
  assumes "sync_try e (beginTransaction d) = (Inl x, s')"
  shows "response (post_api_sync e d) =
           (if rollback_rejected e d then NoResponse else SyncFailed)"
    and "store (post_api_sync e d) = d"
    and "session (post_api_sync e d) = (if rollback_rejected e d then tx s' else d)"
    and "effects (post_api_sync e d) = trace s' @ [EvRollback]"
  using assms sync_try_Inl_durable [OF assms]
  by (simp_all add: post_api_sync_Inl rollback_rejected_Inl beginTransaction_def)

lemma post_api_sync_failed_store:
  assumes "response (post_api_sync e d) = SyncFailed \<or>
           response (post_api_sync e d) = NoResponse"
  shows "store (post_api_sync e d) = d"
    and "\<exists>evs. effects (post_api_sync e d) = evs @ [EvRollback]"
    and "\<exists>x. fst (sync_try e (beginTransaction d)) = Inl x"
proof -
  obtain r s' where run: "sync_try e (beginTransaction d) = (r, s')"
    by (cases "sync_try e (beginTransaction d)")
  have "\<exists>x. r = Inl x"
  proof (cases r)
    case (Inr a)
    with run assms sync_try_Inr_response [of e "beginTransaction d" a s'] show ?thesis
      by (auto simp: post_api_sync_Inr)
  qed simp
  then obtain x where x: "r = Inl x" ..
  from run x show "store (post_api_sync e d) = d"
    by (simp add: post_api_sync_thrown(2))
  from run x show "\<exists>evs. effects (post_api_sync e d) = evs @ [EvRollback]"
    by (simp add: post_api_sync_thrown(4))
  from run x show "\<exists>x. fst (sync_try e (beginTransaction d)) = Inl x" by simp
qed

text \<open>
  C1. The handler answers 500 or nothing exactly when something in the try block
  throws, and then the store is what it was before the invocation (customers,
  receipts, line items and watermark log alike) and the last effect is the rollback
  the \<^verbatim>\<open>catch\<close> block sends. When the server accepts that rollback, the response is the
  500 and the handler's connection holds the tables as they were before the
  invocation. When the server rejects it, no response is sent, and the connection is
  released holding whatever the transaction had written when the exception occurred.
\<close>

theorem sync_failure_outcome:
  "((\<exists>x. fst (sync_try e (beginTransaction d)) = Inl x) \<longleftrightarrow>
      response (post_api_sync e d) = SyncFailed \<or>
      response (post_api_sync e d) = NoResponse) \<and>
   ((\<exists>x. fst (sync_try e (beginTransaction d)) = Inl x) \<longrightarrow>
      store (post_api_sync e d) = d \<and>
      (\<exists>evs. effects (post_api_sync e d) = evs @ [EvRollback]) \<and>
      (if rollback_rejected e d
       then response (post_api_sync e d) = NoResponse \<and>
            session (post_api_sync e d) = tx (snd (sync_try e (beginTransaction d)))
       else response (post_api_sync e d) = SyncFailed \<and>
            session (post_api_sync e d) = d))"
proof -
  have thrown: "store (post_api_sync e d) = d \<and>
      (\<exists>evs. effects (post_api_sync e d) = evs @ [EvRollback]) \<and>
      (if rollback_rejected e d
       then response (post_api_sync e d) = NoResponse \<and>
            session (post_api_sync e d) = tx (snd (sync_try e (beginTransaction d)))
       else response (post_api_sync e d) = SyncFailed \<and>
            session (post_api_sync e d) = d)"
    if "\<exists>x. fst (sync_try e (beginTransaction d)) = Inl x"
  proof -
    from that obtain x s' where run: "sync_try e (beginTransaction d) = (Inl x, s')"
      by (cases "sync_try e (beginTransaction d)") auto
    from post_api_sync_thrown [OF run] run show ?thesis by simp
  qed
  then have "response (post_api_sync e d) = SyncFailed \<or>
      response (post_api_sync e d) = NoResponse"
    if "\<exists>x. fst (sync_try e (beginTransaction d)) = Inl x"
    using that by (cases "rollback_rejected e d") simp_all
  with thrown post_api_sync_failed_store(3) [of e d] show ?thesis by blast
qed

lemma faulty_env_simps:
  "clock faulty_env = 2000" "db_fault faulty_env n = (n = 5)"
  "get_customers faulty_env p = Inr (Some [alice])"
  "get_receipts faulty_env p = Inr (Some [r100])"
  "embed_and_store faulty_env docs = True"
  "toLocaleString faulty_env t = ''8/1/2025, 12:00:01 AM''"
  "number_toString faulty_env = show_number"
  by (simp_all add: faulty_env_def busy_env_def quiet_env_def)

lemma lost_env_simps:
  "clock lost_env = 2000" "db_fault lost_env n = (5 \<le> n)"
  "get_customers lost_env p = Inr (Some [alice])"
  "get_receipts lost_env p = Inr (Some [r100])"
  "embed_and_store lost_env docs = True"
  "toLocaleString lost_env t = ''8/1/2025, 12:00:01 AM''"
  "number_toString lost_env = show_number"
  by (simp_all add: lost_env_def busy_env_def quiet_env_def)

lemmas try_defs =
  sync_try_def read_last_sync_def sync_customers_def fetch_receipts_def
  save_receipt_def ensure_customer_stub_def send_documents_def bind_p_def return_p_def
  throw_p_def query_def commit_def axios_get_customers_def axios_get_receipts_def
  axios_post_embed_def beginTransaction_def seeded_db_def Let_def
  select_last_sync_def insert_customer_on_duplicate_key_update_def
  insert_ignore_customer_def insert_receipt_def insert_line_item_def insert_sync_log_def
  customer_values_def receipt_values_def line_item_values_def alice_def r100_def
  latte_def muffin_def

lemma faulty_run:
  "sync_try faulty_env (beginTransaction seeded_db) =
     (Inl (SqlError StatementRejected),
      \<lparr>durable = seeded_db,
       tx = \<lparr>customers =
               [customer_values alice,
                \<lparr>row_id = ''C1'', row_name = Some ''Unknown Customer'', row_email = None,
                 row_phone_number = None, row_total_visits = None, row_total_spent = None,
                 row_updated_at = Some 1500\<rparr>],
             receipts = [receipt_values r100],
             line_items_tbl = [line_item_values r100 latte],
             sync_log = [1000]\<rparr>,
       issued = 6,
       trace =
         [EvQuery SelectLastSync,
          EvGetCustomers \<lparr>created_at_min = 1000, created_at_max = 2000, limit = 250\<rparr>,
          EvQuery (InsertCustomerOnDuplicateKeyUpdate (customer_values alice)),
          EvGetReceipts \<lparr>created_at_min = 1000, created_at_max = 2000, limit = 250\<rparr>,
          EvQuery (InsertIgnoreCustomer ''C1'' ''Unknown Customer'' 1500),
          EvQuery (InsertReceipt (receipt_values r100)),
          EvQuery (InsertLineItem (line_item_values r100 latte)),
          EvQuery (InsertLineItem (line_item_values r100 muffin))]\<rparr>)"
  by (simp add: try_defs faulty_env_simps)

lemma lost_run:
  "sync_try lost_env (beginTransaction seeded_db) =
     sync_try faulty_env (beginTransaction seeded_db)"
  by (simp add: try_defs faulty_env_simps lost_env_simps)

theorem sync_failure_outcome_witness:
  "(\<exists>x. fst (sync_try faulty_env (beginTransaction seeded_db)) = Inl x) \<and>
   \<not> rollback_rejected faulty_env seeded_db \<and>
   response (post_api_sync faulty_env seeded_db) = SyncFailed \<and>
   store (post_api_sync faulty_env seeded_db) = seeded_db \<and>
   session (post_api_sync faulty_env seeded_db) = seeded_db \<and>
   (\<exists>x. fst (sync_try lost_env (beginTransaction seeded_db)) = Inl x) \<and>
   rollback_rejected lost_env seeded_db \<and>
   response (post_api_sync lost_env seeded_db) = NoResponse \<and>
   store (post_api_sync lost_env seeded_db) = seeded_db \<and>
   session (post_api_sync lost_env seeded_db) =
     \<lparr>customers =
        [customer_values alice,
         \<lparr>row_id = ''C1'', row_name = Some ''Unknown Customer'', row_email = None,
          row_phone_number = None, row_total_visits = None, row_total_spent = None,
          row_updated_at = Some 1500\<rparr>],
      receipts = [receipt_values r100],
      line_items_tbl = [line_item_values r100 latte],
      sync_log = [1000]\<rparr>"
proof -
  have f1: "\<exists>x. fst (sync_try faulty_env (beginTransaction seeded_db)) = Inl x"
    by (simp add: faulty_run)
  have f2: "\<not> rollback_rejected faulty_env seeded_db"
    by (simp add: rollback_rejected_def faulty_run faulty_env_simps)
  have l1: "\<exists>x. fst (sync_try lost_env (beginTransaction seeded_db)) = Inl x"
    by (simp add: lost_run faulty_run)
  have l2: "rollback_rejected lost_env seeded_db"
    by (simp add: rollback_rejected_def lost_run faulty_run lost_env_simps)
  from sync_failure_outcome [of faulty_env seeded_db] f1 f2
  have a: "response (post_api_sync faulty_env seeded_db) = SyncFailed \<and>
      store (post_api_sync faulty_env seeded_db) = seeded_db \<and>
      session (post_api_sync faulty_env seeded_db) = seeded_db"
    by simp
  from sync_failure_outcome [of lost_env seeded_db] l1 l2
  have b: "response (post_api_sync lost_env seeded_db) = NoResponse \<and>
      store (post_api_sync lost_env seeded_db) = seeded_db \<and>
      session (post_api_sync lost_env seeded_db) =
        tx (snd (sync_try lost_env (beginTransaction seeded_db)))"
    by simp
  from a b f1 f2 l1 l2 show ?thesis
    by (simp add: lost_run faulty_run)
qed

subsection \<open>Receipt numbers\<close>

lemma insert_receipt_duplicate:
  "rr_receipt_number v \<in> set (map rr_receipt_number (receipts d)) \<Longrightarrow>
     exec_stmt (InsertReceipt v) d = Inl DuplicateEntry"
  by (simp add: insert_receipt_def)

lemma ensure_customer_stub_receipts:
  "ensure_customer_stub e r s = (res, s') \<Longrightarrow> receipts (tx s') = receipts (tx s)"
  by (auto simp: ensure_customer_stub_def return_p_def bind_p_def query_def Let_def
      insert_ignore_tables split: option.splits if_splits)

lemma save_receipt_Inr_fresh:
  assumes "save_receipt e r s = (Inr doc, s')"
  shows "receipt_number r \<notin> set (map rr_receipt_number (receipts (tx s)))"
proof -
  from assms obtain u s0 rows s1 where
    stub: "ensure_customer_stub e r s = (Inr u, s0)" and
    ins: "query e (InsertReceipt (receipt_values r)) s0 = (Inr rows, s1)"
    unfolding save_receipt_def Let_def by (auto simp: bind_p_Inr)
  from query_Inr [OF ins] have "exec_stmt (InsertReceipt (receipt_values r)) (tx s0) \<noteq> Inl DuplicateEntry"
    by simp
  with insert_receipt_duplicate [of "receipt_values r" "tx s0"]
  have "receipt_number r \<notin> set (map rr_receipt_number (receipts (tx s0)))"
    by (auto simp: receipt_values_def)
  with ensure_customer_stub_receipts [OF stub] show ?thesis by simp
qed

lemma save_receipt_keeps_numbers:
  "preserves (\<lambda>s. N \<subseteq> set (map rr_receipt_number (receipts (tx s)))) (save_receipt e r)"
  by (intro preserves_save_receipt preserves_tx_query)
    (auto simp: insert_ignore_tables dest!: insert_receipt_tables insert_line_item_tables
      split: sum.splits)

lemma save_receipts_Inr_fresh:
  "save_receipts e rs docs s = (Inr out, s') \<Longrightarrow> r \<in> set rs \<Longrightarrow>
     receipt_number r \<notin> set (map rr_receipt_number (receipts (tx s)))"
proof (induction rs arbitrary: docs s)
  case Nil
  then show ?case by simp
next
  case (Cons r0 rs)
  from Cons.prems(1) obtain doc s1 where
    one: "save_receipt e r0 s = (Inr doc, s1)" and
    rest: "save_receipts e rs (docs @ [doc]) s1 = (Inr out, s')"
    by (auto simp: bind_p_Inr)
  show ?case
  proof (cases "r = r0")
    case True
    with save_receipt_Inr_fresh [OF one] show ?thesis by simp
  next
    case False
    with Cons.prems(2) have "r \<in> set rs" by simp
    from Cons.IH [OF rest this]
    have "receipt_number r \<notin> set (map rr_receipt_number (receipts (tx s1)))" .
    moreover have "set (map rr_receipt_number (receipts (tx s)))
        \<subseteq> set (map rr_receipt_number (receipts (tx s1)))"
      using preservesD [OF save_receipt_keeps_numbers _ one,
          of "set (map rr_receipt_number (receipts (tx s)))"]
      by simp
    ultimately show ?thesis by blast
  qed
qed

text \<open>
  C2. When the watermark is set and the receipts response holds a receipt whose number
  the receipts table already has, the invocation answers 500 and leaves the store,
  the watermark log included, as it was; the insert of such a receipt is rejected as a
  duplicate entry in every state of the table that holds the number. The 500 is the
  response unless the server also rejects the rollback, in which case none is sent.
\<close>

theorem duplicate_receipt_aborts_sync:
  assumes "sync_log d \<noteq> []"
    and "get_receipts e \<lparr>created_at_min = last (sync_log d), created_at_max = clock e,
           limit = 250\<rparr> = Inr (Some rs)"
    and "r \<in> set rs"
    and "receipt_number r \<in> set (map rr_receipt_number (receipts d))"
  shows "response (post_api_sync e d) =
           (if rollback_rejected e d then NoResponse else SyncFailed) \<and>
         store (post_api_sync e d) = d \<and>
         sync_log (store (post_api_sync e d)) = sync_log d \<and>
         (\<forall>d'. receipt_number r \<in> set (map rr_receipt_number (receipts d')) \<longrightarrow>
            exec_stmt (InsertReceipt (receipt_values r)) d' = Inl DuplicateEntry)"
proof -
  obtain res s' where run: "sync_try e (beginTransaction d) = (res, s')"
    by (cases "sync_try e (beginTransaction d)")
  have "\<exists>x. res = Inl x"
    using run
  proof (cases rule: sync_try_cases)
    case (noop t s1 s2 s3)
    from read_last_sync_Inr [OF noop(1)] have "t = last (sync_log d)"
      by (simp add: beginTransaction_def)
    with noop(3) assms(2,3) show ?thesis
      by (simp add: fetch_receipts_Inr)
  next
    case (synced t s1 cs s2 rs' s3 docs s4 s5 rows s6)
    from read_last_sync_Inr [OF synced(1)] read_last_sync_frame [OF synced(1)]
    have t: "t = last (sync_log d)" and tx1: "receipts (tx s1) = receipts d"
      by (simp_all add: beginTransaction_def)
    from synced(3) t assms(2) have rs': "rs' = rs"
      by (simp add: fetch_receipts_Inr)
    from sync_customers_frame(2) [OF synced(2)] fetch_receipts_same [OF synced(3)] tx1
    have "receipts (tx s3) = receipts d" by simp
    with save_receipts_Inr_fresh [OF synced(5), of r] rs' assms(3,4) show ?thesis
      by simp
  qed simp_all
  then obtain x where "res = Inl x" ..
  with run have thrown: "sync_try e (beginTransaction d) = (Inl x, s')" by simp
  have "response (post_api_sync e d) =
          (if rollback_rejected e d then NoResponse else SyncFailed)"
    by (rule post_api_sync_thrown(1) [OF thrown])
  moreover have "exec_stmt (InsertReceipt (receipt_values r)) d' = Inl DuplicateEntry"
    if "receipt_number r \<in> set (map rr_receipt_number (receipts d'))" for d'
    using that by (intro insert_receipt_duplicate) (simp add: receipt_values_def)
  ultimately show ?thesis
    using post_api_sync_thrown(2) [OF thrown] by simp
qed

lemmas run_defs =
  post_api_sync_def sync_try_def read_last_sync_def sync_customers_def fetch_receipts_def
  save_receipt_def ensure_customer_stub_def send_documents_def bind_p_def return_p_def
  throw_p_def query_def commit_def rollback_def axios_get_customers_def axios_get_receipts_def
  axios_post_embed_def beginTransaction_def Let_def
  select_last_sync_def insert_customer_on_duplicate_key_update_def
  insert_ignore_customer_def insert_receipt_def insert_line_item_def insert_sync_log_def
  customer_values_def receipt_values_def line_item_values_def


theorem duplicate_receipt_aborts_sync_witness:
  "sync_log synced_db \<noteq> [] \<and>
   get_receipts busy_env \<lparr>created_at_min = last (sync_log synced_db),
     created_at_max = clock busy_env, limit = 250\<rparr> = Inr (Some [r100]) \<and>
   r100 \<in> set [r100] \<and>
   receipt_number r100 \<in> set (map rr_receipt_number (receipts synced_db)) \<and>
   response (post_api_sync busy_env synced_db) = SyncFailed \<and>
   store (post_api_sync busy_env synced_db) = synced_db \<and>
   sync_log (store (post_api_sync busy_env synced_db)) = [1000, 2000]"
proof -
  have h1: "sync_log synced_db \<noteq> []"
    by (simp add: synced_db_def)
  have h2: "get_receipts busy_env \<lparr>created_at_min = last (sync_log synced_db),
     created_at_max = clock busy_env, limit = 250\<rparr> = Inr (Some [r100])"
    by (simp add: busy_env_simps)
  have h3: "r100 \<in> set [r100]" by simp
  have h4: "receipt_number r100 \<in> set (map rr_receipt_number (receipts synced_db))"
    by (simp add: synced_db_def receipt_values_def)
  have log: "sync_log synced_db = [1000, 2000]"
    by (simp add: synced_db_def)
  have healthy: "\<not> rollback_rejected busy_env synced_db"
    by (rule healthy_connection) (simp add: busy_env_simps)
  from duplicate_receipt_aborts_sync [OF h1 h2 h3 h4] h1 h2 h3 h4 log healthy
  show ?thesis by simp
qed

subsection \<open>The first run\<close>

text \<open>
  C9. With an empty watermark log, \<^verbatim>\<open>GET /api/sync-status\<close> answers the 404
  "no sync yet" (unless the query itself is rejected), and \<^verbatim>\<open>POST /api/sync\<close> stops at
  the watermark read: it issues the select and nothing else, makes no fetch with any
  window, rolls back, leaves the store as it was and answers 500 (or, when the server
  rejects the rollback, sends no response).
\<close>

theorem first_run_is_surfaced:
  assumes "sync_log d = []"
  shows "get_api_sync_status fmt False d = NoSyncYet \<and>
         post_api_sync e d =
           \<lparr>response = (if db_fault e 1 then NoResponse else SyncFailed), store = d,
            session = d, effects = [EvQuery SelectLastSync, EvRollback]\<rparr>"
  using assms
  by (simp add: get_api_sync_status_def post_api_sync_def sync_try_def read_last_sync_def
      bind_p_def query_def throw_p_def rollback_def beginTransaction_def Let_def
      select_last_sync_def)

theorem first_run_is_surfaced_witness:
  "sync_log fresh_db = [] \<and>
   get_api_sync_status (\<lambda>t. ''Friday, August 01, 2025'') False fresh_db = NoSyncYet \<and>
   post_api_sync busy_env fresh_db =
     \<lparr>response = SyncFailed, store = fresh_db, session = fresh_db,
      effects = [EvQuery SelectLastSync, EvRollback]\<rparr>"
proof -
  have h: "sync_log fresh_db = []"
    by (simp add: fresh_db_def)
  from first_run_is_surfaced [OF h, of "\<lambda>t. ''Friday, August 01, 2025''" busy_env] h
  show ?thesis by (simp add: busy_env_simps)
qed

subsection \<open>The empty window\<close>

text \<open>
  C6. When the watermark is set, the customers response holds no customer (an empty
  list, or no list at all) and the receipts response holds an empty list, the store is
  left as it was and nothing is appended to the watermark log. If the server rejects
  neither the select nor the commit, the handler issues exactly the select, the two
  fetches and the commit, and answers "no new data"; otherwise it answers 500 (or
  nothing, when the server rejects the rollback as well).
\<close>

theorem empty_fetch_is_noop:
  assumes "sync_log d \<noteq> []"
    and "get_customers e \<lparr>created_at_min = last (sync_log d), created_at_max = clock e,
           limit = 250\<rparr> = Inr b"
    and "b = None \<or> b = Some []"
    and "get_receipts e \<lparr>created_at_min = last (sync_log d), created_at_max = clock e,
           limit = 250\<rparr> = Inr (Some [])"
  shows "store (post_api_sync e d) = d \<and>
         list_all (\<lambda>ev. \<not> is_watermark_append ev) (effects (post_api_sync e d)) \<and>
         (if db_fault e 0 \<or> db_fault e 1
          then response (post_api_sync e d) =
                 (if rollback_rejected e d then NoResponse else SyncFailed)
          else post_api_sync e d =
                 \<lparr>response = NoNewData, store = d, session = d,
                  effects =
                    [EvQuery SelectLastSync,
                     EvGetCustomers \<lparr>created_at_min = last (sync_log d),
                        created_at_max = clock e, limit = 250\<rparr>,
                     EvGetReceipts \<lparr>created_at_min = last (sync_log d),
                        created_at_max = clock e, limit = 250\<rparr>,
                     EvCommit]\<rparr>)"
proof -
  have sel: "select_last_sync d = [last (sync_log d)]"
    using assms(1) by (simp add: select_last_sync_eq)
  show ?thesis
    using assms(2-4) sel
    by (auto simp: post_api_sync_def rollback_rejected_def sync_try_def read_last_sync_def
        sync_customers_def fetch_receipts_def bind_p_def return_p_def throw_p_def query_def
        commit_def rollback_def axios_get_customers_def axios_get_receipts_def
        beginTransaction_def Let_def)
qed

theorem empty_fetch_is_noop_witness:
  "sync_log seeded_db \<noteq> [] \<and>
   get_customers quiet_env \<lparr>created_at_min = last (sync_log seeded_db),
     created_at_max = clock quiet_env, limit = 250\<rparr> = Inr (Some []) \<and>
   get_receipts quiet_env \<lparr>created_at_min = last (sync_log seeded_db),
     created_at_max = clock quiet_env, limit = 250\<rparr> = Inr (Some []) \<and>
   post_api_sync quiet_env seeded_db =
     \<lparr>response = NoNewData, store = seeded_db, session = seeded_db,
      effects =
        [EvQuery SelectLastSync,
         EvGetCustomers \<lparr>created_at_min = 1000, created_at_max = 2000, limit = 250\<rparr>,
         EvGetReceipts \<lparr>created_at_min = 1000, created_at_max = 2000, limit = 250\<rparr>,
         EvCommit]\<rparr>"
proof -
  have h1: "sync_log seeded_db \<noteq> []"
    by (simp add: seeded_db_def)
  have h2: "get_customers quiet_env \<lparr>created_at_min = last (sync_log seeded_db),
     created_at_max = clock quiet_env, limit = 250\<rparr> = Inr (Some [])"
    by (simp add: quiet_env_simps)
  have h3: "Some [] = None \<or> Some [] = Some ([] :: customer list)" by simp
  have h4: "get_receipts quiet_env \<lparr>created_at_min = last (sync_log seeded_db),
     created_at_max = clock quiet_env, limit = 250\<rparr> = Inr (Some [])"
    by (simp add: quiet_env_simps)
  have vals: "last (sync_log seeded_db) = 1000" "clock quiet_env = 2000"
    "\<not> (db_fault quiet_env 0 \<or> db_fault quiet_env 1)"
    by (simp_all add: seeded_db_def quiet_env_simps)
  from empty_fetch_is_noop [OF h1 h2 h3 h4] h1 h2 h4 vals
  show ?thesis by simp
qed

subsection \<open>The watermark\<close>



















subsection \<open>The call of the embedding service\<close>

lemma quietly_refl: "quietly s s"
  by (simp add: quietly_def extends_by_def)

lemma quietly_trans: "quietly s s1 \<Longrightarrow> quietly s1 s2 \<Longrightarrow> quietly s s2"
  by (auto simp: quietly_def extends_by_def)

lemma quietlyI:
  "trace s' = trace s @ evs \<Longrightarrow>
     list_all (\<lambda>ev. \<not> is_embed ev \<and> \<not> is_watermark_append ev \<and> ev \<noteq> EvCommit) evs \<Longrightarrow>
     quietly s s'"
  by (auto simp: quietly_def extends_by_def list_all_iff)

lemma quietlyD:
  "quietly s s' \<Longrightarrow>
     \<exists>pre. trace s' = trace s @ pre \<and>
       list_all (\<lambda>ev. \<not> is_embed ev \<and> \<not> is_watermark_append ev) pre"
  by (simp add: quietly_def extends_by_def)

lemma quietly_read_last_sync: "read_last_sync e s = (r, s') \<Longrightarrow> quietly s s'"
  by (rule quietlyI [where evs = "[EvQuery SelectLastSync]"])
    (simp_all add: read_last_sync_frame)

lemma quietly_sync_customers: "sync_customers e p s = (r, s') \<Longrightarrow> quietly s s'"
  using sync_customers_frame(5) [of e p s r s'] by (auto intro: quietlyI)

lemma quietly_fetch_receipts: "fetch_receipts e p s = (r, s') \<Longrightarrow> quietly s s'"
  by (rule quietlyI [where evs = "[EvGetReceipts p]"]) (auto dest: fetch_receipts_frame)

lemma quietly_save_receipts: "save_receipts e rs docs s = (r, s') \<Longrightarrow> quietly s s'"
  using save_receipts_frame(3) [of e rs docs s r s'] by (auto intro: quietlyI)

lemma quietly_commit: "commit e s = (r, s') \<Longrightarrow> quietly s s'"
  by (auto simp: quietly_def extends_by_def dest: commit_frame)

lemma sync_try_embed_shape:
  assumes "sync_try e s = (r, s')"
  shows "\<exists>pre emb post.
           trace s' = trace s @ pre @ emb @ post \<and>
           list_all (\<lambda>ev. \<not> is_embed ev \<and> \<not> is_watermark_append ev) pre \<and>
           list_all (\<lambda>ev. \<not> is_embed ev) post \<and>
           (emb = [] \<and> (\<forall>n m. r = Inr (Synced n m) \<longrightarrow> n = 0) \<or>
            (\<exists>rs. rs \<noteq> [] \<and>
               get_receipts e \<lparr>created_at_min = last (sync_log (tx s)),
                 created_at_max = clock e, limit = 250\<rparr> = Inr (Some rs) \<and>
               emb = [EvEmbed (map (\<lambda>r. buildSummary e r (line_items r)) rs)] \<and>
               (\<not> embed_and_store e (map (\<lambda>r. buildSummary e r (line_items r)) rs) \<longrightarrow>
                  (\<exists>x. r = Inl x))))"
proof -
  let ?Q = "\<lambda>ev. \<not> is_embed ev \<and> \<not> is_watermark_append ev"
  let ?build = "map (\<lambda>r. buildSummary e r (line_items r))"
  have quiet_end: ?thesis if "quietly s s'" and "\<forall>n m. r = Inr (Synced n m) \<longrightarrow> n = 0"
  proof -
    from quietlyD [OF that(1)] obtain pre where
      "trace s' = trace s @ pre @ [] @ []" "list_all ?Q pre" by auto
    with that(2) show ?thesis by (intro exI [of _ pre] exI [of _ "[]"]) simp
  qed
  have tail: ?thesis
    if sel: "read_last_sync e s = (Inr t, s1)"
      and fetch: "fetch_receipts e \<lparr>created_at_min = t, created_at_max = clock e,
            limit = 250\<rparr> s2 = (Inr rs, s3)"
      and save: "save_receipts e rs [] s3 = (Inr docs, s4)"
      and quiet: "quietly s s4"
      and sent: "trace s' = trace s4 @ (if docs = [] then [] else [EvEmbed docs]) @ post"
      and post: "list_all (\<lambda>ev. \<not> is_embed ev) post"
      and ok: "docs \<noteq> [] \<and> \<not> embed_and_store e docs \<longrightarrow> (\<exists>x. r = Inl x)"
      and res: "\<forall>n m. r = Inr (Synced n m) \<longrightarrow> n = length rs"
    for t s1 s2 rs s3 docs s4 post
  proof -
    from quietlyD [OF quiet] obtain pre where
      pre: "trace s4 = trace s @ pre" "list_all ?Q pre" by auto
    from save_receipts_result [OF save] have docs: "docs = ?build rs" by simp
    from read_last_sync_Inr [OF sel] fetch
    have got: "get_receipts e \<lparr>created_at_min = last (sync_log (tx s)),
        created_at_max = clock e, limit = 250\<rparr> = Inr (Some rs)"
      by (simp add: fetch_receipts_Inr)
    show ?thesis
    proof (cases "rs = []")
      case True
      with docs sent pre post res show ?thesis
        by (intro exI [of _ pre] exI [of _ "[]"] exI [of _ post]) simp
    next
      case False
      with docs sent pre post ok got show ?thesis
        by (intro exI [of _ pre] exI [of _ "[EvEmbed (?build rs)]"] exI [of _ post]) auto
    qed
  qed
  from assms show ?thesis
  proof (cases rule: sync_try_cases)
    case (no_watermark x)
    then show ?thesis
      by (intro quiet_end) (auto dest: quietly_read_last_sync)
  next
    case (customers_failed t s1 x)
    then show ?thesis
      by (intro quiet_end)
        (auto dest!: quietly_read_last_sync quietly_sync_customers intro: quietly_trans)
  next
    case (receipts_failed t s1 cs s2 x)
    then show ?thesis
      by (intro quiet_end)
        (auto dest!: quietly_read_last_sync quietly_sync_customers quietly_fetch_receipts
          intro: quietly_trans)
  next
    case (noop_commit_failed t s1 s2 s3 x)
    then show ?thesis
      by (intro quiet_end)
        (auto dest!: quietly_read_last_sync quietly_sync_customers quietly_fetch_receipts
          quietly_commit intro: quietly_trans)
  next
    case (noop t s1 s2 s3)
    then show ?thesis
      by (intro quiet_end)
        (auto dest!: quietly_read_last_sync quietly_sync_customers quietly_fetch_receipts
          quietly_commit intro: quietly_trans)
  next
    case (saving_failed t s1 cs s2 rs s3 x)
    then show ?thesis
      by (intro quiet_end)
        (auto dest!: quietly_read_last_sync quietly_sync_customers quietly_fetch_receipts
          quietly_save_receipts intro: quietly_trans)
  next
    case (indexing_failed t s1 cs s2 rs s3 docs s4 x)
    have q: "quietly s s4"
      using indexing_failed(1,2,3,5)
      by (auto dest!: quietly_read_last_sync quietly_sync_customers quietly_fetch_receipts
          quietly_save_receipts intro: quietly_trans)
    show ?thesis
      using indexing_failed(6,7) send_documents_frame [OF indexing_failed(6)]
      by (intro tail [OF indexing_failed(1,3,5) q, of "[]"]) simp_all
  next
    case (append_failed t s1 cs s2 rs s3 docs s4 s5 x)
    have q: "quietly s s4"
      using append_failed(1,2,3,5)
      by (auto dest!: quietly_read_last_sync quietly_sync_customers quietly_fetch_receipts
          quietly_save_receipts intro: quietly_trans)
    show ?thesis
      using append_failed(8) send_documents_frame [OF append_failed(6)]
        query_frame [OF append_failed(7)]
      by (intro tail [OF append_failed(1,3,5) q, of "[EvQuery (InsertSyncLog (clock e))]"])
        simp_all
  next
    case (commit_failed t s1 cs s2 rs s3 docs s4 s5 rows s6 x)
    have q: "quietly s s4"
      using commit_failed(1,2,3,5)
      by (auto dest!: quietly_read_last_sync quietly_sync_customers quietly_fetch_receipts
          quietly_save_receipts intro: quietly_trans)
    show ?thesis
      using commit_failed(9) send_documents_frame [OF commit_failed(6)]
        query_frame [OF commit_failed(7)] commit_frame [OF commit_failed(8)]
      by (intro tail [OF commit_failed(1,3,5) q,
            of "[EvQuery (InsertSyncLog (clock e)), EvCommit]"])
        simp_all
  next
    case (synced t s1 cs s2 rs s3 docs s4 s5 rows s6)
    have q: "quietly s s4"
      using synced(1,2,3,5)
      by (auto dest!: quietly_read_last_sync quietly_sync_customers quietly_fetch_receipts
          quietly_save_receipts intro: quietly_trans)
    have "docs = [] \<or> embed_and_store e docs"
      using synced(6)
      by (auto simp: send_documents_def axios_post_embed_def Let_def split: if_splits)
    then show ?thesis
      using synced(9) send_documents_frame [OF synced(6)]
        query_frame [OF synced(7)] commit_frame [OF synced(8)]
      by (intro tail [OF synced(1,3,5) q,
            of "[EvQuery (InsertSyncLog (clock e)), EvCommit]"])
        auto
  qed
qed

lemma filter_embed_shape:
  assumes "list_all (\<lambda>ev. \<not> is_embed ev \<and> \<not> is_watermark_append ev) pre"
    and "list_all (\<lambda>ev. \<not> is_embed ev) post"
    and "emb = [] \<or> emb = [EvEmbed docs]"
  shows "filter is_embed (pre @ emb @ post) = emb"
    and "list_all (\<lambda>ev. \<not> is_embed ev)
           (dropWhile (\<lambda>ev. \<not> is_watermark_append ev) (pre @ emb @ post))"
proof -
  have pre: "filter is_embed pre = []" and post: "filter is_embed post = []"
    using assms(1,2) by (auto simp: list_all_iff filter_empty_conv)
  with assms(3) show "filter is_embed (pre @ emb @ post) = emb" by auto
  have "dropWhile (\<lambda>ev. \<not> is_watermark_append ev) (pre @ emb @ post) =
        dropWhile (\<lambda>ev. \<not> is_watermark_append ev) post"
    using assms(1,3) by (auto simp: list_all_iff dropWhile_append)
  moreover have "list_all (\<lambda>ev. \<not> is_embed ev) (dropWhile (\<lambda>ev. \<not> is_watermark_append ev) post)"
    using assms(2) by (auto simp: list_all_iff dest: set_dropWhileD)
  ultimately show "list_all (\<lambda>ev. \<not> is_embed ev)
           (dropWhile (\<lambda>ev. \<not> is_watermark_append ev) (pre @ emb @ post))"
    by simp
qed

text \<open>
  C7. Among the effects of an invocation there is either no call of the embedding
  service, and then the response does not report any synced receipt, or exactly one:
  it carries the summaries of all fetched receipts, in order, the fetched list is not
  empty, and if the service rejects it the invocation answers 500 (nothing, when the
  server rejects the rollback too) and leaves the store as it was. No call of the service comes after an insert into the watermark log. The
  step after the receipts loop makes the call if and only if the loop built a
  document.
\<close>

theorem indexing_hand_off:
  "(filter is_embed (effects (post_api_sync e d)) = [] \<and>
      (\<forall>n m. response (post_api_sync e d) = Synced n m \<longrightarrow> n = 0) \<or>
    (\<exists>rs. rs \<noteq> [] \<and>
       get_receipts e \<lparr>created_at_min = last (sync_log d), created_at_max = clock e,
         limit = 250\<rparr> = Inr (Some rs) \<and>
       filter is_embed (effects (post_api_sync e d)) =
         [EvEmbed (map (\<lambda>r. buildSummary e r (line_items r)) rs)] \<and>
       (\<not> embed_and_store e (map (\<lambda>r. buildSummary e r (line_items r)) rs) \<longrightarrow>
          response (post_api_sync e d) =
            (if rollback_rejected e d then NoResponse else SyncFailed) \<and>
          store (post_api_sync e d) = d))) \<and>
   list_all (\<lambda>ev. \<not> is_embed ev)
     (dropWhile (\<lambda>ev. \<not> is_watermark_append ev) (effects (post_api_sync e d))) \<and>
   (\<forall>docs s. trace (snd (send_documents e docs s)) =
      trace s @ (if docs = [] then [] else [EvEmbed docs]))"
proof -
  let ?out = "post_api_sync e d"
  let ?build = "map (\<lambda>r. buildSummary e r (line_items r))"
  obtain r s' where run: "sync_try e (beginTransaction d) = (r, s')"
    by (cases "sync_try e (beginTransaction d)")
  have "\<exists>pre emb post.
      trace s' = pre @ emb @ post \<and>
      list_all (\<lambda>ev. \<not> is_embed ev \<and> \<not> is_watermark_append ev) pre \<and>
      list_all (\<lambda>ev. \<not> is_embed ev) post \<and>
      (emb = [] \<and> (\<forall>n m. r = Inr (Synced n m) \<longrightarrow> n = 0) \<or>
       (\<exists>rs. rs \<noteq> [] \<and>
          get_receipts e \<lparr>created_at_min = last (sync_log d), created_at_max = clock e,
            limit = 250\<rparr> = Inr (Some rs) \<and>
          emb = [EvEmbed (?build rs)] \<and>
          (\<not> embed_and_store e (?build rs) \<longrightarrow> (\<exists>x. r = Inl x))))"
    using sync_try_embed_shape [OF run] by (simp add: beginTransaction_def)
  then obtain pre emb post where
    tr: "trace s' = pre @ emb @ post" and
    pre: "list_all (\<lambda>ev. \<not> is_embed ev \<and> \<not> is_watermark_append ev) pre" and
    post: "list_all (\<lambda>ev. \<not> is_embed ev) post" and
    emb: "emb = [] \<and> (\<forall>n m. r = Inr (Synced n m) \<longrightarrow> n = 0) \<or>
      (\<exists>rs. rs \<noteq> [] \<and>
         get_receipts e \<lparr>created_at_min = last (sync_log d), created_at_max = clock e,
           limit = 250\<rparr> = Inr (Some rs) \<and>
         emb = [EvEmbed (?build rs)] \<and>
         (\<not> embed_and_store e (?build rs) \<longrightarrow> (\<exists>x. r = Inl x)))"
    by (elim exE conjE)
  define post' where "post' = (case r of Inl _ \<Rightarrow> post @ [EvRollback] | Inr _ \<Rightarrow> post)"
  have eff: "effects ?out = pre @ emb @ post'"
    using run tr by (cases r) (simp_all add: post'_def post_api_sync_Inl post_api_sync_Inr)
  have post': "list_all (\<lambda>ev. \<not> is_embed ev) post'"
    using post by (cases r) (simp_all add: post'_def)
  have resp: "response ?out =
      (case r of Inl _ \<Rightarrow> (if rollback_rejected e d then NoResponse else SyncFailed)
       | Inr a \<Rightarrow> a)"
    using run by (cases r) (simp_all add: post_api_sync_thrown(1) post_api_sync_Inr)
  from emb obtain docs where shape: "emb = [] \<or> emb = [EvEmbed docs]" by auto
  note fs = filter_embed_shape [OF pre post' shape]
  have first: "filter is_embed (effects ?out) = [] \<and>
      (\<forall>n m. response ?out = Synced n m \<longrightarrow> n = 0) \<or>
    (\<exists>rs. rs \<noteq> [] \<and>
       get_receipts e \<lparr>created_at_min = last (sync_log d), created_at_max = clock e,
         limit = 250\<rparr> = Inr (Some rs) \<and>
       filter is_embed (effects ?out) = [EvEmbed (?build rs)] \<and>
       (\<not> embed_and_store e (?build rs) \<longrightarrow>
          response ?out = (if rollback_rejected e d then NoResponse else SyncFailed) \<and>
          store ?out = d))"
    using emb
  proof
    assume "emb = [] \<and> (\<forall>n m. r = Inr (Synced n m) \<longrightarrow> n = 0)"
    then have "filter is_embed (effects ?out) = [] \<and>
      (\<forall>n m. response ?out = Synced n m \<longrightarrow> n = 0)"
      using fs(1) eff resp by (cases r) auto
    then show ?thesis ..
  next
    assume "\<exists>rs. rs \<noteq> [] \<and>
         get_receipts e \<lparr>created_at_min = last (sync_log d), created_at_max = clock e,
           limit = 250\<rparr> = Inr (Some rs) \<and>
         emb = [EvEmbed (?build rs)] \<and>
         (\<not> embed_and_store e (?build rs) \<longrightarrow> (\<exists>x. r = Inl x))"
    then obtain rs where rs: "rs \<noteq> []"
      "get_receipts e \<lparr>created_at_min = last (sync_log d), created_at_max = clock e,
           limit = 250\<rparr> = Inr (Some rs)"
      "emb = [EvEmbed (?build rs)]"
      "\<not> embed_and_store e (?build rs) \<longrightarrow> (\<exists>x. r = Inl x)"
      by blast
    have "response ?out = (if rollback_rejected e d then NoResponse else SyncFailed) \<and>
        store ?out = d"
      if "\<not> embed_and_store e (?build rs)"
    proof -
      from that rs(4) resp
      have "response ?out = (if rollback_rejected e d then NoResponse else SyncFailed)"
        by auto
      with post_api_sync_failed_store(1) [of e d] show ?thesis by simp
    qed
    with rs fs(1) eff have "rs \<noteq> [] \<and>
       get_receipts e \<lparr>created_at_min = last (sync_log d), created_at_max = clock e,
         limit = 250\<rparr> = Inr (Some rs) \<and>
       filter is_embed (effects ?out) = [EvEmbed (?build rs)] \<and>
       (\<not> embed_and_store e (?build rs) \<longrightarrow>
          response ?out = (if rollback_rejected e d then NoResponse else SyncFailed) \<and>
          store ?out = d)"
      by simp
    then show ?thesis by blast
  qed
  have third: "trace (snd (send_documents e docs s)) =
      trace s @ (if docs = [] then [] else [EvEmbed docs])" for docs s
    using send_documents_frame [of e docs s "fst (send_documents e docs s)"
        "snd (send_documents e docs s)"]
    by (cases "docs = []") simp_all
  from first fs(2) third show ?thesis
    by (simp only: eff [symmetric]) blast
qed

lemma deaf_env_simps:
  "clock deaf_env = 2000" "db_fault deaf_env n = False"
  "get_customers deaf_env p = Inr (Some [alice])" "get_receipts deaf_env p = Inr (Some [r100])"
  "embed_and_store deaf_env docs = False"
  "toLocaleString deaf_env t = ''8/1/2025, 12:00:01 AM''"
  "number_toString deaf_env = show_number"
  by (simp_all add: deaf_env_def busy_env_def quiet_env_def)

lemma deaf_run:
  "filter is_embed (effects (post_api_sync deaf_env seeded_db)) =
     [EvEmbed [''On 8/1/2025, 12:00:01 AM, receipt R-100 was created totaling 11. Items sold: 2 of Latte, 1 of Muffin.'']]"
  by (simp add: run_defs deaf_env_simps seeded_db_def alice_def r100_def
      latte_def muffin_def join_def show_number_def)

theorem indexing_hand_off_witness:
  "\<not> embed_and_store deaf_env (map (\<lambda>r. buildSummary deaf_env r (line_items r)) [r100]) \<and>
   filter is_embed (effects (post_api_sync deaf_env seeded_db)) =
     [EvEmbed [''On 8/1/2025, 12:00:01 AM, receipt R-100 was created totaling 11. Items sold: 2 of Latte, 1 of Muffin.'']] \<and>
   response (post_api_sync deaf_env seeded_db) = SyncFailed \<and>
   store (post_api_sync deaf_env seeded_db) = seeded_db"
proof -
  let ?build = "map (\<lambda>r. buildSummary deaf_env r (line_items r))"
  have h: "\<not> embed_and_store deaf_env (?build [r100])"
    by (simp add: deaf_env_simps)
  from indexing_hand_off [of deaf_env seeded_db] deaf_run
  obtain rs where rs:
    "get_receipts deaf_env \<lparr>created_at_min = last (sync_log seeded_db),
       created_at_max = clock deaf_env, limit = 250\<rparr> = Inr (Some rs)"
    "\<not> embed_and_store deaf_env (?build rs) \<longrightarrow>
       response (post_api_sync deaf_env seeded_db) =
         (if rollback_rejected deaf_env seeded_db then NoResponse else SyncFailed) \<and>
       store (post_api_sync deaf_env seeded_db) = seeded_db"
    by auto
  have healthy: "\<not> rollback_rejected deaf_env seeded_db"
    by (rule healthy_connection) (simp add: deaf_env_simps)
  from rs(1) have "rs = [r100]" by (simp add: deaf_env_simps)
  with rs(2) h deaf_run healthy show ?thesis by simp
qed

subsection \<open>Response bodies without the expected field\<close>
















end
